theory Spec2Isabelle
  imports
    Main
    "HOL-Library.AList"
    "HOL-Library.Char_ord"
    "HOL-Library.List_Lexorder"
    "HOL-Library.Sublist"
    "HOL-Library.Word"
begin

section \<open>Exceptions\<close>

text \<open>
  Every exception the modelled code raises or lets through is a value of \<open>error\<close>; a
  function that can raise returns \<open>error + 'a\<close> with \<open>Inl\<close> for the exception.
  \<open>AzureHttpError\<close> carries the HTTP status code of \<open>azure.common.AzureHttpError\<close>;
  \<open>OtherError\<close> stands for any exception of external code (a driver, the network).
\<close>

datatype error =
    ValueError string
  | TypeError string
  | KeyError string
  | ImportError string
  | UnsupportedOperation string
  | AzureHttpError int
  | ObjectNotFoundError string
  | OtherError string

section \<open>Stream base: \<open>pycosio/_core/io_base.py\<close>\<close>

text \<open>
  \<open>ObjectIOBase\<close>: the attributes set by \<open>__init__\<close>. The cache is the dict
  \<open>self._cache\<close>, from method names to cached results of type \<open>'v\<close>. Subclass
  attributes live in the record's extension. The two locks carry no data.
\<close>

record 'v ObjectIOBase =
  io_name :: string
  io_mode :: string
  io_cache :: "string \<rightharpoonup> 'v"
  io_seek :: int
  io_writable :: bool
  io_readable :: bool
  io_seekable :: bool

definition invalid_mode_message :: "string \<Rightarrow> string" where
  "invalid_mode_message mode = ''Invalid mode '' @ [CHR 0x22] @ mode @ [CHR 0x22]"

text \<open>
  \<open>ObjectIOBase.__init__(self, name, mode='r')\<close>: the flags start as
  \<open>_writable = False\<close>, \<open>_readable = False\<close>, \<open>_seekable = True\<close>; then the
  \<open>if / elif / else\<close> on the mode either sets one flag or raises \<open>ValueError\<close>.
\<close>

definition ObjectIOBase_init :: "string \<Rightarrow> string \<Rightarrow> error + 'v ObjectIOBase" where
  "ObjectIOBase_init name mode =
     (let self = \<lparr> io_name = name, io_mode = mode, io_cache = Map.empty, io_seek = 0,
                    io_writable = False, io_readable = False, io_seekable = True \<rparr>
      in if CHR ''w'' \<in> set mode \<or> CHR ''a'' \<in> set mode then Inr (self\<lparr>io_writable := True\<rparr>)
         else if CHR ''r'' \<in> set mode then Inr (self\<lparr>io_readable := True\<rparr>)
         else Inl (ValueError (invalid_mode_message mode)))"

definition readable :: "('v, 'z) ObjectIOBase_scheme \<Rightarrow> bool" where
  "readable self = io_readable self"

definition writable :: "('v, 'z) ObjectIOBase_scheme \<Rightarrow> bool" where
  "writable self = io_writable self"

definition seekable :: "('v, 'z) ObjectIOBase_scheme \<Rightarrow> bool" where
  "seekable self = io_seekable self"

definition tell :: "('v, 'z) ObjectIOBase_scheme \<Rightarrow> error + int" where
  "tell self = (if \<not> io_seekable self then Inl (UnsupportedOperation ''tell'') else Inr (io_seek self))"

text \<open>
  A method of a stream takes the instance and its arguments, and returns its result or the
  exception it raised, together with the instance as the call left it.
\<close>

type_synonym ('v, 'z, 'a) bound_method =
  "('v, 'z) ObjectIOBase_scheme \<Rightarrow> 'a \<Rightarrow> (error + 'v) \<times> ('v, 'z) ObjectIOBase_scheme"

text \<open>
  \<open>ObjectIOBase._memoize(method)\<close>: the decorated method is given with its
  \<open>__name__\<close>. \<open>patched\<close> returns \<open>self._cache[method_name]\<close> when the key is
  there; on \<open>KeyError\<close> it calls the method and stores the result under the name in the
  cache of the instance as the method left it. An exception of the method propagates and
  nothing is stored.
\<close>

definition memoize :: "string \<times> ('v, 'z, 'a) bound_method \<Rightarrow> ('v, 'z, 'a) bound_method" where
  "memoize method self args =
     (let method_name = fst method in
      case io_cache self method_name of
        Some cached \<Rightarrow> (Inr cached, self)
      | None \<Rightarrow>
          (case snd method self args of
             (Inl e, self') \<Rightarrow> (Inl e, self')
           | (Inr result, self') \<Rightarrow>
               (Inr result, self'\<lparr>io_cache := (io_cache self')(method_name \<mapsto> result)\<rparr>)))"

text \<open>
  A sequence of calls of the memoized accessor named \<open>method_name\<close> on one instance,
  each with its own arguments; the body bound to the name may differ from call to call, so
  that a result that does not depend on the body shows the body was not run.
\<close>

fun call_sequence ::
  "string \<Rightarrow> (('v, 'z, 'a) bound_method \<times> 'a) list \<Rightarrow> ('v, 'z) ObjectIOBase_scheme
     \<Rightarrow> (error + 'v) list \<times> ('v, 'z) ObjectIOBase_scheme" where
  "call_sequence method_name [] self = ([], self)"
| "call_sequence method_name ((body, args) # calls) self =
     (case memoize (method_name, body) self args of
        (r, self') \<Rightarrow>
          (case call_sequence method_name calls self' of
             (rs, self'') \<Rightarrow> (r # rs, self'')))"

section \<open>Azure block blobs: \<open>pycosio/storage/azure_blob/_block_blob.py\<close>\<close>

type_synonym bytes = "8 word list"

text \<open>\<open>azure.storage.blob.BlobBlock(id=block_id)\<close>.\<close>

datatype BlobBlock = BlobBlock (block_id: string)

text \<open>
  The calls the stream makes on its client, which is code of the Azure SDK: the client is
  modelled by the sequence of calls it has received.
\<close>

datatype client_call =
    put_block bytes string
  | get_block_list
  | put_block_list "BlobBlock list"

text \<open>
  \<open>AzureBlockBlobBufferedIO\<close> in write mode. A future of \<open>_write_futures\<close> is
  represented by the call that was submitted for it, \<open>put_block(block, block_id)\<close>; its
  result is decided by the worker pool below.
\<close>

record AzureBlockBlobBufferedIO =
  write_futures :: "(bytes \<times> string) list"
  blocks :: "BlobBlock list"

text \<open>
  The stream as \<open>__init__\<close> leaves it in write mode: \<open>self._blocks = []\<close>, and no
  future submitted yet.
\<close>

definition new_writable :: AzureBlockBlobBufferedIO where
  "new_writable = \<lparr> write_futures = [], blocks = [] \<rparr>"

definition ascii_lowercase :: string where
  "ascii_lowercase = ''abcdefghijklmnopqrstuvwxyz''"

text \<open>
  \<open>_get_random_block_id(length)\<close>: \<open>choice\<close> draws from the random generator; the
  draws are the parameter \<open>rnd\<close>, the \<open>i\<close>-th draw picking the letter of index
  \<open>rnd i mod 26\<close>.
\<close>

definition get_random_block_id :: "(nat \<Rightarrow> nat) \<Rightarrow> nat \<Rightarrow> string" where
  "get_random_block_id rnd length' =
     map (\<lambda>i. ascii_lowercase ! (rnd i mod 26)) [0..<length']"

text \<open>
  \<open>_flush(self)\<close>: \<open>buffer\<close> is \<open>self._get_buffer().tobytes()\<close>. The call is
  submitted to the pool, its future appended to \<open>_write_futures\<close>, and the block
  appended to \<open>_blocks\<close>.
\<close>

definition flush :: "(nat \<Rightarrow> nat) \<times> bytes \<Rightarrow> AzureBlockBlobBufferedIO \<Rightarrow> AzureBlockBlobBufferedIO" where
  "flush chunk self =
     (let block_id = get_random_block_id (fst chunk) 32 in
      self\<lparr> write_futures := write_futures self @ [(snd chunk, block_id)],
            blocks := blocks self @ [BlobBlock block_id] \<rparr>)"

text \<open>Successive flushes, one per chunk, in the order the chunks are given.\<close>

fun flush_chunks :: "((nat \<Rightarrow> nat) \<times> bytes) list \<Rightarrow> AzureBlockBlobBufferedIO \<Rightarrow> AzureBlockBlobBufferedIO" where
  "flush_chunks [] self = self"
| "flush_chunks (chunk # chunks) self = flush_chunks chunks (flush chunk self)"

text \<open>
  The worker pool (\<open>ThreadPoolExecutor\<close>) runs the submitted calls on its threads, and
  they complete in an order the stream does not control: \<open>completion\<close> lists the indices
  of the submitted calls in the order they complete, and the client receives the calls in
  that order; the pool runs every call it was given, whatever the others do.
  \<open>outcome k\<close> is \<open>None\<close> when the \<open>k\<close>-th submitted call returns and
  \<open>Some e\<close> when it raises \<open>e\<close>.
\<close>

definition run_workers :: "nat list \<Rightarrow> (bytes \<times> string) list \<Rightarrow> client_call list" where
  "run_workers completion futures =
     map (\<lambda>k. put_block (fst (futures ! k)) (snd (futures ! k)))
       (filter (\<lambda>k. k < length futures) completion)"

text \<open>
  \<open>for future in self._write_futures: future.result()\<close>: the results are awaited in
  submission order, and the first future whose call raised re-raises its exception.
\<close>

fun await_results :: "error option list \<Rightarrow> error option" where
  "await_results [] = None"
| "await_results (None # rs) = await_results rs"
| "await_results (Some e # rs) = Some e"

text \<open>
  \<open>_close_writable(self)\<close>. \<open>committed\<close> is what \<open>get_block_list\<close> does (it raises,
  or returns the \<open>committed_blocks\<close>), \<open>commit_outcome\<close> what \<open>put_block_list\<close>
  does. The result is the exception raised, if any, and the calls the client has received
  after those of \<open>calls\<close>.
\<close>

definition close_writable ::
  "nat list \<Rightarrow> (nat \<Rightarrow> error option) \<Rightarrow> error + BlobBlock list \<Rightarrow> error option
     \<Rightarrow> AzureBlockBlobBufferedIO \<Rightarrow> client_call list \<Rightarrow> (error + unit) \<times> client_call list" where
  "close_writable completion outcome committed commit_outcome self calls =
     (let calls1 = calls @ run_workers completion (write_futures self) in
      case await_results (map outcome [0..<length (write_futures self)]) of
        Some e \<Rightarrow> (Inl e, calls1)
      | None \<Rightarrow>
          (case committed of
             Inl e \<Rightarrow> (Inl e, calls1 @ [get_block_list])
           | Inr committed_blocks \<Rightarrow>
               (let calls2 = calls1 @ [get_block_list,
                                       put_block_list (committed_blocks @ blocks self)]
                in case commit_outcome of
                     Some e \<Rightarrow> (Inl e, calls2)
                   | None \<Rightarrow> (Inr (), calls2))))"

definition is_commit :: "client_call \<Rightarrow> bool" where
  "is_commit c = (case c of put_block_list _ \<Rightarrow> True | _ \<Rightarrow> False)"

section \<open>Azure blobs, raw stream: \<open>pycosio/storage/azure_blob/_base_blob.py\<close>\<close>

text \<open>
  \<open>AzureBlobRawIO._read_range(self, start, end=0)\<close>. The client call
  \<open>get_blob_to_stream(stream, start_range, end_range)\<close> and the context manager
  \<open>_handle_azure_exception\<close> are parameters: the first returns the bytes written to the
  stream or the exception raised, the second maps the exception raised inside the
  \<open>with\<close> block to the one that leaves it. An \<open>AzureHttpError\<close> of status 416 that
  leaves the block is the end of the object.
\<close>

definition read_range ::
  "(error \<Rightarrow> error) \<Rightarrow> (int \<Rightarrow> int option \<Rightarrow> error + bytes) \<Rightarrow> int \<Rightarrow> int \<Rightarrow> error + bytes" where
  "read_range handle_exception get_blob start end' =
     (case get_blob start (if end' \<noteq> 0 then Some (end' - 1) else None) of
        Inr stream \<Rightarrow> Inr stream
      | Inl raised \<Rightarrow>
          (case handle_exception raised of
             AzureHttpError status_code \<Rightarrow>
               if status_code = 416 then Inr [] else Inl (AzureHttpError status_code)
           | exception \<Rightarrow> Inl exception))"

text \<open>
  Modelled from the spec: \<open>_handle_azure_exception\<close> of \<open>pycosio/storage/azure\<close> is
  not among the sources. The spec: provider-level exceptions are caught at the point of the
  network call; a missing-object condition encountered during read maps to a not-found
  error. Every other exception leaves the block as it is.
\<close>

definition handle_azure_exception :: "error \<Rightarrow> error" where
  "handle_azure_exception raised =
     (case raised of
        AzureHttpError status_code \<Rightarrow>
          if status_code = 404 then ObjectNotFoundError [] else AzureHttpError status_code
      | exception \<Rightarrow> exception)"

text \<open>
  The blob service behind \<open>get_blob_to_stream\<close>, for a blob holding \<open>content\<close>: a
  range that starts at or past the end of the blob is answered with status 416; otherwise
  the service sends the bytes from \<open>start_range\<close> to \<open>end_range\<close> inclusive, as far as
  the blob goes, and to the end of the blob when there is no \<open>end_range\<close>. This is the
  range behaviour the repository's tests give their mocked client
  (\<open>tests/test_s3.py\<close>, \<open>Client.get_object\<close>).
\<close>

definition get_blob_to_stream :: "bytes \<Rightarrow> int \<Rightarrow> int option \<Rightarrow> error + bytes" where
  "get_blob_to_stream content start_range end_range =
     (let size' = int (length content);
          end' = (case end_range of None \<Rightarrow> size' | Some e \<Rightarrow> min (e + 1) size')
      in if start_range \<ge> size' then Inl (AzureHttpError 416)
         else Inr (take (nat (end' - start_range)) (drop (nat start_range) content)))"

text \<open>
  Modelled from the spec: \<open>ObjectRawIOBase.readinto\<close> of \<open>pycosio/_core/io_raw.py\<close>
  is not among the sources. The spec: \<open>readinto(buffer)\<close> delegates to the driver's
  range-read primitive for the length of the buffer, then advances the position by the
  number of bytes actually returned, and returns that number; the bytes of the buffer
  beyond it are left as they were. \<open>read\<close> is the range-read primitive.
\<close>

definition readinto ::
  "(int \<Rightarrow> int \<Rightarrow> error + bytes) \<Rightarrow> bytes \<Rightarrow> ('v, 'z) ObjectIOBase_scheme
     \<Rightarrow> (error + int \<times> bytes) \<times> ('v, 'z) ObjectIOBase_scheme" where
  "readinto read b self =
     (case read (io_seek self) (io_seek self + int (length b)) of
        Inl e \<Rightarrow> (Inl e, self)
      | Inr read_data \<Rightarrow>
          (Inr (int (length read_data), read_data @ drop (length read_data) b),
           self\<lparr>io_seek := io_seek self + int (length read_data)\<rparr>))"

text \<open>
  Successive \<open>readinto\<close> calls, each followed by \<open>tell()\<close>: the list of the pairs
  (count returned, position told), up to the first exception.
\<close>

fun readinto_calls ::
  "(int \<Rightarrow> int \<Rightarrow> error + bytes) \<Rightarrow> bytes list \<Rightarrow> ('v, 'z) ObjectIOBase_scheme
     \<Rightarrow> (int \<times> int) list" where
  "readinto_calls read [] self = []"
| "readinto_calls read (b # bs) self =
     (case readinto read b self of
        (Inl e, self') \<Rightarrow> []
      | (Inr (count, b'), self') \<Rightarrow>
          (case tell self' of
             Inl e \<Rightarrow> []
           | Inr position \<Rightarrow> (count, position) # readinto_calls read bs self'))"

section \<open>Registry: \<open>pycosio/_core/storage_manager.py\<close>\<close>

subsection \<open>Values\<close>

text \<open>
  The Python values that reach the registry. A dict is the list of its items in insertion
  order, with distinct keys; \<open>d[k] = v\<close> is \<open>AList.update k v d\<close>, which replaces the
  value in place or appends the item. The values of a \<open>storage_parameters\<close> dict are
  atoms; \<open>ASystem a\<close> is the system instance at address \<open>a\<close>. Dicts are values: a dict
  object shared with the caller is not tracked, and where \<open>get_instance\<close> assigns into
  the dict object held by the registry the assignment is written back explicitly.
\<close>

datatype atom = ANone | ABool bool | AInt int | AStr string | ASystem nat

datatype pyval = PNone | PBool bool | PInt int | PStr string | PDict "(string \<times> atom) list"

type_synonym 'v dict = "(string \<times> 'v) list"

text \<open>Python's \<open>==\<close>: a bool equals the int of its value, dicts are equal whatever the order of their items.\<close>

fun atom_eq :: "atom \<Rightarrow> atom \<Rightarrow> bool" where
  "atom_eq (ABool b) (AInt i) = (i = (if b then 1 else 0))"
| "atom_eq (AInt i) (ABool b) = (i = (if b then 1 else 0))"
| "atom_eq x y = (x = y)"

definition dict_eq :: "('v \<Rightarrow> 'v \<Rightarrow> bool) \<Rightarrow> 'v dict \<Rightarrow> 'v dict \<Rightarrow> bool" where
  "dict_eq eq a b \<longleftrightarrow>
     length a = length b \<and>
     list_all (\<lambda>(k, v). case map_of b k of None \<Rightarrow> False | Some v' \<Rightarrow> eq v v') a"

fun pyval_eq :: "pyval \<Rightarrow> pyval \<Rightarrow> bool" where
  "pyval_eq (PBool b) (PInt i) = (i = (if b then 1 else 0))"
| "pyval_eq (PInt i) (PBool b) = (i = (if b then 1 else 0))"
| "pyval_eq (PDict a) (PDict b) = dict_eq atom_eq a b"
| "pyval_eq x y = (x = y)"

text \<open>\<open>d.update(other)\<close>: the items of \<open>other\<close> are assigned in order.\<close>

definition dict_update :: "'v dict \<Rightarrow> 'v dict \<Rightarrow> 'v dict" where
  "dict_update d other = foldl (\<lambda>d' (k, v). AList.update k v d') d other"

subsection \<open>Strings\<close>

text \<open>\<open>sep in name\<close>.\<close>

fun contains :: "string \<Rightarrow> string \<Rightarrow> bool" where
  "contains sep [] = (sep = [])"
| "contains sep (c # cs) = (prefix sep (c # cs) \<or> contains sep cs)"

text \<open>\<open>name.split(sep, 1)[0]\<close>: what precedes the first occurrence of \<open>sep\<close>, or all of \<open>name\<close>.\<close>

fun split_first :: "string \<Rightarrow> string \<Rightarrow> string" where
  "split_first sep [] = []"
| "split_first sep (c # cs) = (if prefix sep (c # cs) then [] else c # split_first sep cs)"

text \<open>\<open>str.lower()\<close> on ASCII letters; other characters are left as they are.\<close>

definition ascii_uppercase :: string where
  "ascii_uppercase = ''ABCDEFGHIJKLMNOPQRSTUVWXYZ''"

definition lower_char :: "char \<Rightarrow> char" where
  "lower_char c =
     (case map_of (zip ascii_uppercase ascii_lowercase) c of Some l \<Rightarrow> l | None \<Rightarrow> c)"

definition lower :: "string \<Rightarrow> string" where
  "lower s = map lower_char s"

subsection \<open>Roots, classes, instances\<close>

text \<open>A root is a \<open>str\<close> or a compiled regular expression, given by its \<open>pattern\<close> text.\<close>

datatype root = Str string | Pattern string

text \<open>\<open>_compare_root(root)\<close>: \<open>root.pattern\<close>, or the root itself on \<open>AttributeError\<close>.\<close>

fun compare_root :: "root \<Rightarrow> string" where
  "compare_root (Pattern pattern) = pattern"
| "compare_root (Str root) = root"

text \<open>A class object of a storage module, by its name.\<close>

datatype cls = Cls string

text \<open>
  A member of a storage module as the class scan of \<open>mount\<close> sees it: something that is
  not a class (\<open>issubclass\<close> raises \<open>TypeError\<close>), or a class with the names of
  \<open>_BASE_CLASSES\<close> whose base class it is a subclass of without being that class.
\<close>

datatype member = NotAClass | Class cls "string list"

text \<open>
  A system instance: its class, the keyword arguments it was constructed with, and its
  \<open>roots\<close> attribute. Instances live in \<open>systems\<close>, and the address of an instance,
  its index there, is its identity.
\<close>

record system_obj =
  sys_class :: cls
  sys_roots_arg :: "root list option"
  sys_parameters :: "pyval dict"
  sys_roots :: "root list"

text \<open>
  The \<open>storage_info\<close> dict of a mount: its keys \<open>system_parameters\<close>, the classes
  found (\<open>raw\<close>, \<open>buffered\<close>, \<open>system\<close>), \<open>system_cached\<close> (an address) and
  \<open>roots\<close>. One dict object is the value of every root of the mount; \<open>info_id\<close> is
  the identity of the object.
\<close>

record storage_info =
  info_id :: nat
  info_system_parameters :: "pyval dict"
  info_classes :: "cls dict"
  info_system_cached :: nat
  info_roots :: "root list"

text \<open>
  The module state: \<open>MOUNTED\<close>, an \<open>OrderedDict\<close>, as the list of its items; the
  system instances created so far; the number of \<open>storage_info\<close> dicts created so far.
\<close>

record state =
  MOUNTED :: "(root \<times> storage_info) list"
  systems :: "system_obj list"
  infos_created :: nat

definition initial_state :: state where
  "initial_state = \<lparr> MOUNTED = [], systems = [], infos_created = 0 \<rparr>"

text \<open>
  What the registry calls and does not define: \<open>import_module\<close> of
  \<open>pycosio.storage.<storage>\<close> gives the members of the module in the order of
  \<open>dir(module)\<close> or raises; \<open>system_init c roots parameters\<close> is the constructor of
  the system class \<open>c\<close> called with \<open>roots=roots\<close> (when given) and
  \<open>**parameters\<close>, which raises or gives an instance, of which the registry reads the
  \<open>roots\<close>; \<open>re_match pattern name\<close> tells whether
  \<open>re.compile(pattern).match(name)\<close> finds a match.
\<close>

record env =
  import_module :: "string \<Rightarrow> error + member list"
  system_init :: "cls \<Rightarrow> root list option \<Rightarrow> pyval dict \<Rightarrow> error + root list"
  re_match :: "string \<Rightarrow> string \<Rightarrow> bool"

subsection \<open>\<open>_system_parameters\<close> and \<open>mount\<close>\<close>

text \<open>\<open>_system_parameters(**kwargs)\<close>: the items whose value \<open>is not None or == {}\<close>.\<close>

definition system_parameters :: "pyval dict \<Rightarrow> pyval dict" where
  "system_parameters kwargs =
     filter (\<lambda>(key, value). value \<noteq> PNone \<or> pyval_eq value (PDict [])) kwargs"

text \<open>
  Lines 114 to 122 of \<open>mount\<close>: the storage name, given or inferred from the scheme of
  \<open>name\<close>.
\<close>

definition infer_storage :: "string option \<Rightarrow> string \<Rightarrow> error + string" where
  "infer_storage storage name =
     (case storage of
        Some storage' \<Rightarrow> Inr storage'
      | None \<Rightarrow>
          if contains ''://'' name then
            (let storage' = lower (split_first ''://'' name)
             in Inr (if storage' = ''https'' then ''http'' else storage'))
          else Inl (ValueError ''No storage specified and unable to infer it from file name.''))"

definition base_classes :: "string list" where
  "base_classes = [''raw'', ''buffered'', ''system'']"

text \<open>
  The scan of the module's members: each class is stored under the name of every base
  class it derives from, a later member replacing an earlier one.
\<close>

fun find_classes :: "member list \<Rightarrow> cls dict \<Rightarrow> cls dict" where
  "find_classes [] storage_info = storage_info"
| "find_classes (NotAClass # members) storage_info = find_classes members storage_info"
| "find_classes (Class member names # members) storage_info =
     find_classes members
       (foldl (\<lambda>info cls_name. if cls_name \<in> set names then AList.update cls_name member info else info)
          storage_info base_classes)"

text \<open>\<open>if extra_root:\<close> holds for a non-empty \<open>str\<close> and for a pattern.\<close>

fun add_extra_root :: "root list \<Rightarrow> root option \<Rightarrow> root list" where
  "add_extra_root roots None = roots"
| "add_extra_root roots (Some (Str root)) = (if root \<noteq> [] then roots @ [Str root] else roots)"
| "add_extra_root roots (Some (Pattern pattern)) = roots @ [Pattern pattern]"

text \<open>
  Lines 157 to 166: every root is assigned the \<open>storage_info\<close>, then \<open>MOUNTED\<close> is
  rebuilt from its keys in the order \<open>reversed(sorted(MOUNTED, key=_compare_root))\<close>.
  \<open>sort_key\<close> is stable, as \<open>sorted\<close> is, and strings are ordered lexicographically
  by character code.
\<close>

definition reorder :: "(root \<times> 'i) list \<Rightarrow> (root \<times> 'i) list" where
  "reorder mounted =
     map (\<lambda>key. (key, the (map_of mounted key))) (rev (sort_key compare_root (map fst mounted)))"

definition add_roots :: "root list \<Rightarrow> 'i \<Rightarrow> (root \<times> 'i) list \<Rightarrow> (root \<times> 'i) list" where
  "add_roots roots storage_info mounted =
     reorder (foldl (\<lambda>mounted' root. AList.update root storage_info mounted') mounted roots)"

text \<open>
  \<open>mount(storage, name, storage_parameters, unsecure, extra_root)\<close>. The result is the
  \<open>storage_info\<close> or the exception raised, with the state the call leaves.
\<close>

definition mount ::
  "env \<Rightarrow> string option \<Rightarrow> string \<Rightarrow> pyval \<Rightarrow> pyval \<Rightarrow> root option \<Rightarrow> state
     \<Rightarrow> (error + storage_info) \<times> state" where
  "mount env storage name storage_parameters unsecure extra_root st =
     (case infer_storage storage name of
        Inl e \<Rightarrow> (Inl e, st)
      | Inr storage' \<Rightarrow>
     (let parameters = system_parameters
            [(''unsecure'', unsecure), (''storage_parameters'', storage_parameters)]
      in case import_module env storage' of
        Inl e \<Rightarrow> (Inl e, st)
      | Inr members \<Rightarrow>
     (let classes = find_classes members []
      in case map_of classes ''system'' of
        None \<Rightarrow> (Inl (KeyError ''system''), st)
      | Some system \<Rightarrow>
     (case system_init env system None parameters of
        Inl e \<Rightarrow> (Inl e, st)
      | Inr roots0 \<Rightarrow>
     (let roots = add_extra_root roots0 extra_root;
          cached = \<lparr> sys_class = system, sys_roots_arg = None, sys_parameters = parameters,
                     sys_roots = roots \<rparr>;
          storage_info = \<lparr> info_id = infos_created st, info_system_parameters = parameters,
                           info_classes = classes, info_system_cached = length (systems st),
                           info_roots = roots \<rparr>
      in (Inr storage_info,
          \<lparr> MOUNTED = add_roots roots storage_info (MOUNTED st),
            systems = systems st @ [cached],
            infos_created = Suc (infos_created st) \<rparr>))))))"

text \<open>Successive \<open>mount\<close> calls; a call that raises leaves the state it has reached.\<close>

record mount_call =
  mc_storage :: "string option"
  mc_name :: string
  mc_storage_parameters :: pyval
  mc_unsecure :: pyval
  mc_extra_root :: "root option"

fun mounts :: "env \<Rightarrow> mount_call list \<Rightarrow> state \<Rightarrow> state" where
  "mounts env [] st = st"
| "mounts env (c # cs) st =
     mounts env cs
       (snd (mount env (mc_storage c) (mc_name c) (mc_storage_parameters c) (mc_unsecure c)
               (mc_extra_root c) st))"

subsection \<open>\<open>get_instance\<close>\<close>

text \<open>Lines 45 to 47: a pattern root must match the name, a \<open>str\<close> root must start it.\<close>

definition root_matches :: "(string \<Rightarrow> string \<Rightarrow> bool) \<Rightarrow> root \<Rightarrow> string \<Rightarrow> bool" where
  "root_matches matches root name =
     (case root of Pattern pattern \<Rightarrow> matches pattern name | Str root' \<Rightarrow> prefix root' name)"

text \<open>The loop \<open>for root in MOUNTED\<close> up to its \<open>break\<close>: the first root that applies.\<close>

fun find_root ::
  "(string \<Rightarrow> string \<Rightarrow> bool) \<Rightarrow> string \<Rightarrow> (root \<times> 'i) list \<Rightarrow> (root \<times> 'i) option" where
  "find_root matches name [] = None"
| "find_root matches name ((root, info) # mounted) =
     (if root_matches matches root name then Some (root, info)
      else find_root matches name mounted)"

text \<open>
  What the local name \<open>system_parameters\<close> is bound to when the lookup is done: a dict
  of its own; the dict object stored in the \<open>storage_info\<close>; or a dict of its own whose
  \<open>storage_parameters\<close> value is the object that \<open>mount\<close> has just stored.
\<close>

datatype binding = Own | Stored | SharedInner

text \<open>\<open>**system_parameters\<close> in the call of \<open>mount\<close>: an absent key leaves the default \<open>None\<close>.\<close>

definition keyword :: "pyval dict \<Rightarrow> string \<Rightarrow> pyval" where
  "keyword kwargs key = (case map_of kwargs key of Some value \<Rightarrow> value | None \<Rightarrow> PNone)"

text \<open>
  Lines 43 to 68: the \<open>storage_info\<close>, \<open>same_parameters\<close> and the system parameters
  to use. \<open>info.get('system_parameters') or dict()\<close> is the stored dict, a new empty
  dict standing in for an empty one.
\<close>

definition resolve ::
  "env \<Rightarrow> string \<Rightarrow> string option \<Rightarrow> pyval dict \<Rightarrow> state
     \<Rightarrow> (error + storage_info \<times> bool \<times> pyval dict \<times> binding) \<times> state" where
  "resolve env name storage parameters st =
     (case find_root (re_match env) name (MOUNTED st) of
        Some (root, info) \<Rightarrow>
          (let stored_parameters = info_system_parameters info
           in if parameters = [] then
                (Inr (info, True, stored_parameters,
                      if stored_parameters = [] then Own else Stored), st)
              else if dict_eq pyval_eq parameters stored_parameters then
                (Inr (info, True, parameters, Own), st)
              else
                (Inr (info, False,
                      dict_update parameters
                        (filter (\<lambda>(key, value). key \<notin> set (map fst parameters)) stored_parameters),
                      Own), st))
      | None \<Rightarrow>
          (case mount env storage name (keyword parameters ''storage_parameters'')
                  (keyword parameters ''unsecure'') None st of
             (Inl e, st') \<Rightarrow> (Inl e, st')
           | (Inr info, st') \<Rightarrow> (Inr (info, True, parameters, SharedInner), st')))"

text \<open>
  Lines 80 to 83: \<open>system_parameters['storage_parameters']['pycosio.system_cached'] =
  info['system_cached']\<close>, after an empty \<open>storage_parameters\<close> is added when the key is
  missing. A value that is not a dict does not support the assignment.
\<close>

definition set_system_cached :: "pyval dict \<Rightarrow> nat \<Rightarrow> error + pyval dict" where
  "set_system_cached parameters cached =
     (let parameters' =
            (if ''storage_parameters'' \<notin> set (map fst parameters)
             then AList.update ''storage_parameters'' (PDict []) parameters else parameters)
      in case map_of parameters' ''storage_parameters'' of
           Some (PDict d) \<Rightarrow>
             Inr (AList.update ''storage_parameters''
                    (PDict (AList.update ''pycosio.system_cached'' (ASystem cached) d)) parameters')
         | _ \<Rightarrow> Inl (TypeError ''object does not support item assignment''))"

text \<open>
  The effect of those assignments on the dict object the registry holds: all of them when
  \<open>system_parameters\<close> is that object; the new \<open>storage_parameters\<close> value when only
  that object is shared and the key was there; none otherwise. The \<open>storage_info\<close> is
  one object under all its roots.
\<close>

definition store_parameters :: "nat \<Rightarrow> (pyval dict \<Rightarrow> pyval dict) \<Rightarrow> state \<Rightarrow> state" where
  "store_parameters i f st =
     st\<lparr>MOUNTED := map (\<lambda>(root, info).
            (root, if info_id info = i
                   then info\<lparr>info_system_parameters := f (info_system_parameters info)\<rparr>
                   else info)) (MOUNTED st)\<rparr>"

fun write_back :: "binding \<Rightarrow> storage_info \<Rightarrow> pyval dict \<Rightarrow> pyval dict \<Rightarrow> state \<Rightarrow> state" where
  "write_back Own info given assigned st = st"
| "write_back Stored info given assigned st = store_parameters (info_id info) (\<lambda>_. assigned) st"
| "write_back SharedInner info given assigned st =
     (if ''storage_parameters'' \<in> set (map fst given)
      then store_parameters (info_id info)
             (AList.update ''storage_parameters'' (keyword assigned ''storage_parameters'')) st
      else st)"

text \<open>
  What \<open>get_instance\<close> returns: a system instance, by its address, or the instance that
  the class \<open>info[cls]\<close> makes of \<open>name\<close>, \<open>*args\<close> and \<open>**kwargs\<close>.
\<close>

datatype instance_ref = System nat | IO cls string "pyval list" "pyval dict"

text \<open>
  \<open>get_instance(name, cls, storage, storage_parameters, unsecure, *args, **kwargs)\<close>.
\<close>

definition get_instance ::
  "env \<Rightarrow> string \<Rightarrow> string \<Rightarrow> string option \<Rightarrow> pyval \<Rightarrow> pyval \<Rightarrow> pyval list \<Rightarrow> pyval dict
     \<Rightarrow> state \<Rightarrow> (error + instance_ref) \<times> state" where
  "get_instance env name cls storage storage_parameters unsecure args kwargs st =
     (case resolve env name storage
             (system_parameters
                [(''unsecure'', unsecure), (''storage_parameters'', storage_parameters)]) st of
        (Inl e, st') \<Rightarrow> (Inl e, st')
      | (Inr (info, same_parameters, parameters, binding), st') \<Rightarrow>
          if cls = ''system'' then
            (if same_parameters then (Inr (System (info_system_cached info)), st')
             else
               (case map_of (info_classes info) ''system'' of
                  None \<Rightarrow> (Inl (KeyError ''system''), st')
                | Some system \<Rightarrow>
                    (case system_init env system (Some (info_roots info)) parameters of
                       Inl e \<Rightarrow> (Inl e, st')
                     | Inr roots \<Rightarrow>
                         (Inr (System (length (systems st'))),
                          st'\<lparr>systems := systems st' @
                                [\<lparr> sys_class = system, sys_roots_arg = Some (info_roots info),
                                   sys_parameters = parameters, sys_roots = roots \<rparr>]\<rparr>))))
          else
            (case (if same_parameters
                   then set_system_cached parameters (info_system_cached info)
                   else Inr parameters) of
               Inl e \<Rightarrow> (Inl e, st')
             | Inr parameters' \<Rightarrow>
                 (let st'' = (if same_parameters
                              then write_back binding info parameters parameters' st' else st')
                  in case map_of (info_classes info) cls of
                       None \<Rightarrow> (Inl (KeyError cls), st'')
                     | Some c \<Rightarrow> (Inr (IO c name args (dict_update kwargs parameters')), st''))))"

text \<open>
  The order that the rebuilding of \<open>MOUNTED\<close> establishes: from the first item to the
  last, the comparison strings of the roots do not increase.
\<close>

definition descending :: "(root \<times> 'i) list \<Rightarrow> bool" where
  "descending mounted \<longleftrightarrow> sorted (rev (map (\<lambda>(root, info). compare_root root) mounted))"

subsection \<open>A sample environment\<close>

text \<open>
  Three storage modules for the examples: \<open>dummy\<close>, whose system serves the root
  \<open>dummy://\<close>; \<open>sub\<close>, whose system serves \<open>dummy://sub/\<close>; and \<open>pattern\<close>,
  whose system serves the compiled pattern \<open>[d]ummy://sub/\<close>, a regular expression that
  matches the names starting with \<open>dummy://sub/\<close>. A system constructed with
  \<open>roots\<close> keeps them.
\<close>

definition sample_env :: env where
  "sample_env =
     \<lparr> import_module = (\<lambda>storage.
         if storage = ''dummy'' then
           Inr [NotAClass, Class (Cls ''DummyBufferedIO'') [''buffered''],
                Class (Cls ''DummyRawIO'') [''raw''], Class (Cls ''DummySystem'') [''system'']]
         else if storage = ''sub'' then Inr [Class (Cls ''SubSystem'') [''system'']]
         else if storage = ''pattern'' then Inr [Class (Cls ''PatternSystem'') [''system'']]
         else Inl (ImportError storage)),
       system_init = (\<lambda>c roots parameters.
         Inr (case roots of
                Some roots' \<Rightarrow> roots'
              | None \<Rightarrow>
                  if c = Cls ''DummySystem'' then [Str ''dummy://'']
                  else if c = Cls ''SubSystem'' then [Str ''dummy://sub/'']
                  else [Pattern ''[d]ummy://sub/''])),
       re_match = (\<lambda>pattern name. pattern = ''[d]ummy://sub/'' \<and> prefix ''dummy://sub/'' name) \<rparr>"

text \<open>A \<open>mount\<close> call that names its storage and gives nothing else.\<close>

definition sample_mount :: "string \<Rightarrow> mount_call" where
  "sample_mount storage =
     \<lparr> mc_storage = Some storage, mc_name = [], mc_storage_parameters = PNone,
       mc_unsecure = PNone, mc_extra_root = None \<rparr>"

text \<open>The \<open>storage_info\<close> of a module with a system class alone and one root.\<close>

definition sample_info :: "nat \<Rightarrow> string \<Rightarrow> root \<Rightarrow> storage_info" where
  "sample_info n class_name root =
     \<lparr> info_id = n, info_system_parameters = [], info_classes = [(''system'', Cls class_name)],
       info_system_cached = n, info_roots = [root] \<rparr>"

text \<open>The \<open>storage_info\<close> of the module \<open>dummy\<close>, with the system parameters given.\<close>

definition dummy_info :: "pyval dict \<Rightarrow> storage_info" where
  "dummy_info parameters =
     \<lparr> info_id = 0, info_system_parameters = parameters,
       info_classes = [(''buffered'', Cls ''DummyBufferedIO''), (''raw'', Cls ''DummyRawIO''),
                       (''system'', Cls ''DummySystem'')],
       info_system_cached = 0, info_roots = [Str ''dummy://''] \<rparr>"

text \<open>
  The state after \<open>mount(name='dummy://x', unsecure=True)\<close> on the empty registry.
\<close>

definition sample_state :: state where
  "sample_state =
     \<lparr> MOUNTED = [(Str ''dummy://'', dummy_info [(''unsecure'', PBool True)])],
       systems = [\<lparr> sys_class = Cls ''DummySystem'', sys_roots_arg = None,
                    sys_parameters = [(''unsecure'', PBool True)], sys_roots = [Str ''dummy://''] \<rparr>],
       infos_created = 1 \<rparr>"

section \<open>Stream base: theorems\<close>

lemma memoize_hit:
  "io_cache self method_name = Some v \<Longrightarrow> memoize (method_name, body) self args = (Inr v, self)"
  by (simp add: memoize_def)

lemma memoize_miss:
  "io_cache self method_name = None \<Longrightarrow> body self args = (Inr result, self') \<Longrightarrow>
   memoize (method_name, body) self args =
     (Inr result, self'\<lparr>io_cache := (io_cache self')(method_name \<mapsto> result)\<rparr>)"
  by (simp add: memoize_def)

lemma call_sequence_hit:
  "io_cache self method_name = Some v \<Longrightarrow>
   call_sequence method_name calls self = (replicate (length calls) (Inr v), self)"
  by (induction calls) (auto simp: memoize_hit)

text \<open>
  C6. Constructing a stream whose mode contains none of \<open>r\<close>, \<open>w\<close>, \<open>a\<close> fails
  with the \<open>ValueError\<close> of an invalid mode (the spec's InvalidModeError); for every
  mode containing at least one of them construction succeeds, and \<open>readable()\<close>,
  \<open>writable()\<close>, \<open>seekable()\<close> report values that are functions of the mode alone.
\<close>

theorem C6_init_mode:
  "(CHR ''r'' \<notin> set mode \<and> CHR ''w'' \<notin> set mode \<and> CHR ''a'' \<notin> set mode \<longrightarrow>
      (ObjectIOBase_init name mode :: error + 'v ObjectIOBase)
        = Inl (ValueError (invalid_mode_message mode)))
   \<and> (CHR ''r'' \<in> set mode \<or> CHR ''w'' \<in> set mode \<or> CHR ''a'' \<in> set mode \<longrightarrow>
      (\<exists>self :: 'v ObjectIOBase. ObjectIOBase_init name mode = Inr self
         \<and> io_name self = name \<and> io_mode self = mode
         \<and> writable self = (CHR ''w'' \<in> set mode \<or> CHR ''a'' \<in> set mode)
         \<and> readable self = (CHR ''r'' \<in> set mode \<and> CHR ''w'' \<notin> set mode \<and> CHR ''a'' \<notin> set mode)
         \<and> seekable self = True))"
  by (auto simp: ObjectIOBase_init_def Let_def readable_def writable_def seekable_def)

theorem C6_init_mode_witness:
  "(ObjectIOBase_init ''f'' ''xb'' :: error + unit ObjectIOBase)
      = Inl (ValueError (invalid_mode_message ''xb''))
   \<and> (\<exists>self :: unit ObjectIOBase. ObjectIOBase_init ''f'' ''rb'' = Inr self
         \<and> \<not> writable self \<and> readable self \<and> seekable self)"
  using C6_init_mode [of "''xb''" "''f''", where ?'v = unit]
        C6_init_mode [of "''rb''" "''f''", where ?'v = unit]
  by auto

text \<open>
  C9. For every mode the constructor accepts, exactly one of \<open>readable()\<close> and
  \<open>writable()\<close> is true: a mode with \<open>w\<close> or \<open>a\<close> gives a stream that is writable and
  not readable, also when the mode contains \<open>r\<close>; \<open>r\<close> gives a readable stream only
  when neither \<open>w\<close> nor \<open>a\<close> is present.
\<close>

theorem C9_readable_xor_writable:
  assumes "ObjectIOBase_init name mode = Inr (self :: 'v ObjectIOBase)"
  shows "readable self \<noteq> writable self
    \<and> (writable self \<longleftrightarrow> CHR ''w'' \<in> set mode \<or> CHR ''a'' \<in> set mode)
    \<and> (readable self \<longleftrightarrow> CHR ''r'' \<in> set mode \<and> CHR ''w'' \<notin> set mode \<and> CHR ''a'' \<notin> set mode)"
  using assms
  by (auto simp: ObjectIOBase_init_def Let_def readable_def writable_def split: if_splits)

theorem C9_readable_xor_writable_witness:
  "ObjectIOBase_init ''f'' ''rw'' =
     Inr \<lparr> io_name = ''f'', io_mode = ''rw'', io_cache = (Map.empty :: string \<rightharpoonup> unit),
           io_seek = 0, io_writable = True, io_readable = False, io_seekable = True \<rparr>
   \<and> writable \<lparr> io_name = ''f'', io_mode = ''rw'', io_cache = (Map.empty :: string \<rightharpoonup> unit),
           io_seek = 0, io_writable = True, io_readable = False, io_seekable = True \<rparr>
   \<and> \<not> readable \<lparr> io_name = ''f'', io_mode = ''rw'', io_cache = (Map.empty :: string \<rightharpoonup> unit),
           io_seek = 0, io_writable = True, io_readable = False, io_seekable = True \<rparr>"
proof -
  have init: "ObjectIOBase_init ''f'' ''rw'' =
     Inr \<lparr> io_name = ''f'', io_mode = ''rw'', io_cache = (Map.empty :: string \<rightharpoonup> unit),
           io_seek = 0, io_writable = True, io_readable = False, io_seekable = True \<rparr>"
    by (simp add: ObjectIOBase_init_def)
  show ?thesis
    using init C9_readable_xor_writable [OF init] by simp
qed

text \<open>
  C8. For a method wrapped by the memoization helper, on an instance whose cache has no
  entry under the method's name, a first call that returns \<open>result\<close> stores it in the
  instance's cache under that name and returns it; every later call of the accessor on
  that instance returns the same value and leaves the instance as it is, whatever body is
  bound to the name: the underlying method is not run again.
\<close>

theorem C8_memoize_once:
  assumes "io_cache self method_name = None"
    and "body self args = (Inr result, self')"
  shows "call_sequence method_name ((body, args) # calls) self =
           (Inr result # replicate (length calls) (Inr result),
            self'\<lparr>io_cache := (io_cache self')(method_name \<mapsto> result)\<rparr>)"
proof -
  let ?s1 = "self'\<lparr>io_cache := (io_cache self')(method_name \<mapsto> result)\<rparr>"
  have first: "memoize (method_name, body) self args = (Inr result, ?s1)"
    using assms by (rule memoize_miss)
  have "io_cache ?s1 method_name = Some result" by simp
  then have rest: "call_sequence method_name calls ?s1 = (replicate (length calls) (Inr result), ?s1)"
    by (rule call_sequence_hit)
  show ?thesis by (simp add: first rest)
qed

theorem C8_memoize_once_witness:
  "call_sequence ''size''
     [(\<lambda>s a. (Inr (a + 1), s), 5), (\<lambda>s a. (Inl (OtherError ''run again''), s), 7),
      (\<lambda>s a. (Inr (a + 1), s\<lparr>io_seek := 9\<rparr>), 8)]
     \<lparr> io_name = ''f'', io_mode = ''r'', io_cache = Map.empty, io_seek = 0,
       io_writable = False, io_readable = True, io_seekable = True \<rparr>
   = ([Inr (6::int), Inr 6, Inr 6],
      \<lparr> io_name = ''f'', io_mode = ''r'', io_cache = [''size'' \<mapsto> 6], io_seek = 0,
        io_writable = False, io_readable = True, io_seekable = True \<rparr>)"
  using C8_memoize_once [of "\<lparr> io_name = ''f'', io_mode = ''r'', io_cache = Map.empty, io_seek = 0,
       io_writable = False, io_readable = True, io_seekable = True \<rparr>" "''size''"
       "\<lambda>s a. (Inr (a + 1), s)" "5::int" 6 "\<lparr> io_name = ''f'', io_mode = ''r'', io_cache = Map.empty, io_seek = 0,
       io_writable = False, io_readable = True, io_seekable = True \<rparr>"
       "[(\<lambda>s a. (Inl (OtherError ''run again''), s), 7),
      (\<lambda>s a. (Inr (a + 1), s\<lparr>io_seek := 9\<rparr>), 8)]"]
  by simp

section \<open>Azure block blobs: theorems\<close>

lemma flush_chunks_futures:
  "write_futures (flush_chunks chunks self) =
     write_futures self @ map (\<lambda>c. (snd c, get_random_block_id (fst c) 32)) chunks"
  by (induction chunks arbitrary: self) (simp_all add: flush_def Let_def)

lemma flush_chunks_blocks:
  "blocks (flush_chunks chunks self) =
     blocks self @ map (\<lambda>c. BlobBlock (get_random_block_id (fst c) 32)) chunks"
  by (induction chunks arbitrary: self) (simp_all add: flush_def Let_def)

lemma run_workers_no_commit: "filter is_commit (run_workers completion futures) = []"
  by (simp add: run_workers_def is_commit_def filter_empty_conv)

lemma await_results_None: "await_results rs = None \<longleftrightarrow> (\<forall>r \<in> set rs. r = None)"
  by (induction rs rule: await_results.induct) auto

lemma await_results_Some:
  "await_results rs = Some e \<longleftrightarrow>
     (\<exists>j < length rs. rs ! j = Some e \<and> (\<forall>i < j. rs ! i = None))"
proof (induction rs rule: await_results.induct)
  case 1
  then show ?case by simp
next
  case (2 rs)
  show ?case
  proof
    assume "await_results (None # rs) = Some e"
    then obtain j where "j < length rs" "rs ! j = Some e" "\<forall>i<j. rs ! i = None"
      using 2 by auto
    then have "Suc j < length (None # rs) \<and> (None # rs) ! Suc j = Some e
        \<and> (\<forall>i < Suc j. (None # rs) ! i = None)"
      by (auto simp: nth_Cons split: nat.splits)
    then show "\<exists>j<length (None # rs). (None # rs) ! j = Some e \<and> (\<forall>i<j. (None # rs) ! i = None)"
      by blast
  next
    assume "\<exists>j<length (None # rs). (None # rs) ! j = Some e \<and> (\<forall>i<j. (None # rs) ! i = None)"
    then obtain j where j: "j < length (None # rs)" "(None # rs) ! j = Some e"
      "\<forall>i<j. (None # rs) ! i = None" by blast
    then obtain j' where j': "j = Suc j'" by (cases j) auto
    have "j' < length rs \<and> rs ! j' = Some e \<and> (\<forall>i<j'. rs ! i = None)"
      using j unfolding j' by auto
    then show "await_results (None # rs) = Some e" using 2 by auto
  qed
next
  case (3 e' rs)
  show ?case
  proof
    assume "await_results (Some e' # rs) = Some e"
    then have "e' = e" by simp
    then have "0 < length (Some e' # rs) \<and> (Some e' # rs) ! 0 = Some e \<and> (\<forall>i<0. (Some e' # rs) ! i = None)"
      by simp
    then show "\<exists>j<length (Some e' # rs). (Some e' # rs) ! j = Some e \<and> (\<forall>i<j. (Some e' # rs) ! i = None)"
      by blast
  next
    assume "\<exists>j<length (Some e' # rs). (Some e' # rs) ! j = Some e \<and> (\<forall>i<j. (Some e' # rs) ! i = None)"
    then obtain j where j: "j < length (Some e' # rs)" "(Some e' # rs) ! j = Some e"
      "\<forall>i<j. (Some e' # rs) ! i = None" by blast
    have "j = 0"
    proof (rule ccontr)
      assume "j \<noteq> 0"
      then have "(Some e' # rs) ! 0 = None" using j(3) by blast
      then show False by simp
    qed
    then show "await_results (Some e' # rs) = Some e" using j by simp
  qed
qed


lemma await_results_map_None:
  "(\<forall>k < n. outcome k = None) \<Longrightarrow> await_results (map outcome [0..<n]) = None"
  by (simp add: await_results_None)

lemma close_writable_success:
  assumes "\<forall>k < length (write_futures self). outcome k = None"
  shows "snd (close_writable completion outcome (Inr committed_blocks) commit_outcome self calls) =
           calls @ run_workers completion (write_futures self)
             @ [get_block_list, put_block_list (committed_blocks @ blocks self)]"
  using await_results_map_None [OF assms]
  by (simp add: close_writable_def Let_def split: option.splits)

text \<open>
  C1. For a write stream flushed as any number of chunks whose uploads all succeed, the one
  \<open>put_block_list\<close> call of the close receives the committed blocks followed by the
  chunks' blocks in the order the chunks were flushed, for every order \<open>completion\<close> in
  which the worker pool completes the \<open>put_block\<close> calls.
\<close>

theorem C1_commit_order:
  assumes "\<forall>k < length chunks. outcome k = None"
  shows "filter is_commit
           (snd (close_writable completion outcome (Inr committed_blocks) commit_outcome
                   (flush_chunks chunks new_writable) []))
         = [put_block_list
              (committed_blocks @ map (\<lambda>c. BlobBlock (get_random_block_id (fst c) 32)) chunks)]"
proof -
  let ?self = "flush_chunks chunks new_writable"
  have len: "length (write_futures ?self) = length chunks"
    by (simp add: flush_chunks_futures new_writable_def)
  have blocks: "blocks ?self = map (\<lambda>c. BlobBlock (get_random_block_id (fst c) 32)) chunks"
    by (simp add: flush_chunks_blocks new_writable_def)
  have "\<forall>k < length (write_futures ?self). outcome k = None"
    using assms len by simp
  then have "snd (close_writable completion outcome (Inr committed_blocks) commit_outcome ?self []) =
      [] @ run_workers completion (write_futures ?self)
         @ [get_block_list, put_block_list (committed_blocks @ blocks ?self)]"
    by (rule close_writable_success)
  then show ?thesis
    by (simp add: run_workers_no_commit blocks) (simp add: is_commit_def)
qed

theorem C1_commit_order_witness:
  "filter is_commit
     (snd (close_writable [2, 1, 0] (\<lambda>_. None) (Inr [BlobBlock ''old'']) None
             (flush_chunks [(\<lambda>_. 0, [1]), (\<lambda>_. 25, [2]), (\<lambda>_. 3, [3])] new_writable) []))
   = [put_block_list [BlobBlock ''old'', BlobBlock (replicate 32 CHR ''a''),
        BlobBlock (replicate 32 CHR ''z''), BlobBlock (replicate 32 CHR ''d'')]]"
proof -
  have ids: "get_random_block_id (\<lambda>_. 0) 32 = replicate 32 CHR ''a''"
    "get_random_block_id (\<lambda>_. 25) 32 = replicate 32 CHR ''z''"
    "get_random_block_id (\<lambda>_. 3) 32 = replicate 32 CHR ''d''"
    by (simp_all add: get_random_block_id_def ascii_lowercase_def map_replicate_const)
  show ?thesis
    using C1_commit_order [of "[(\<lambda>_. 0, [1]), (\<lambda>_. 25, [2]), (\<lambda>_. 3, [3])]" "\<lambda>_. None"
        "[2, 1, 0]" "[BlobBlock ''old'']" None]
    by (simp add: ids)
qed

text \<open>
  C4. If the upload of some chunk failed, closing the write stream raises the exception of
  the first failed chunk in submission order (every chunk before it succeeded), and the
  client receives no \<open>get_block_list\<close> and no \<open>put_block_list\<close> call: only the
  \<open>put_block\<close> calls of the workers are added.
\<close>

theorem C4_failed_chunk_aborts_commit:
  assumes "k < length (write_futures self)" and "outcome k = Some e"
  shows "\<exists>j e'. j \<le> k \<and> outcome j = Some e' \<and> (\<forall>i < j. outcome i = None)
           \<and> close_writable completion outcome committed commit_outcome self calls
               = (Inl e', calls @ run_workers completion (write_futures self))
           \<and> filter is_commit
                (snd (close_writable completion outcome committed commit_outcome self calls))
               = filter is_commit calls"
proof -
  let ?rs = "map outcome [0..<length (write_futures self)]"
  have "await_results ?rs \<noteq> None"
    using assms by (auto simp: await_results_None)
  then obtain e' where e': "await_results ?rs = Some e'" by blast
  then obtain j where j: "j < length ?rs" "?rs ! j = Some e'" "\<forall>i < j. ?rs ! i = None"
    unfolding await_results_Some by blast
  have oj: "outcome j = Some e'" using j(1,2) by simp
  have before: "\<forall>i < j. outcome i = None" using j(1,3) by simp
  have "j \<le> k"
  proof (rule ccontr)
    assume "\<not> j \<le> k"
    then have "outcome k = None" using before by simp
    then show False using assms(2) by simp
  qed
  moreover have "close_writable completion outcome committed commit_outcome self calls
      = (Inl e', calls @ run_workers completion (write_futures self))"
    using e' by (simp add: close_writable_def Let_def)
  ultimately show ?thesis using oj before by (auto simp: run_workers_no_commit)
qed

theorem C4_failed_chunk_aborts_commit_witness:
  "close_writable [2, 0, 1] (\<lambda>k. if k = 1 then Some (OtherError ''put_block'') else None)
       (Inr []) None
       \<lparr> write_futures = [([1], ''a''), ([2], ''b''), ([3], ''c'')],
         blocks = [BlobBlock ''a'', BlobBlock ''b'', BlobBlock ''c''] \<rparr> []
     = (Inl (OtherError ''put_block''), [put_block [3] ''c'', put_block [1] ''a'', put_block [2] ''b''])"
  using C4_failed_chunk_aborts_commit [of 1
       "\<lparr> write_futures = [([1], ''a''), ([2], ''b''), ([3], ''c'')],
         blocks = [BlobBlock ''a'', BlobBlock ''b'', BlobBlock ''c''] \<rparr>"
       "\<lambda>k. if k = 1 then Some (OtherError ''put_block'') else None" "OtherError ''put_block''"
       "[2, 0, 1]" "Inr []" None "[]"]
  by (auto simp: run_workers_def split: if_splits)


section \<open>Azure blobs, raw stream: theorems\<close>

lemma read_range_at_end:
  assumes "handle_exception (AzureHttpError 416) = AzureHttpError 416"
    and "int (length content) \<le> start"
  shows "read_range handle_exception (get_blob_to_stream content) start end' = Inr []"
  using assms by (simp add: read_range_def get_blob_to_stream_def Let_def)

lemma read_range_inside:
  assumes "0 \<le> start" and "start < int (length content)" and "start < end'"
  shows "read_range handle_exception (get_blob_to_stream content) start end' =
           Inr (take (nat (min end' (int (length content)) - start)) (drop (nat start) content))"
  using assms by (simp add: read_range_def get_blob_to_stream_def Let_def)

lemma length_read_inside:
  assumes "0 \<le> start" and "start < int (length content)" and "start < end'"
  shows "int (length (take (nat (min end' (int (length content)) - start)) (drop (nat start) content)))
           = min end' (int (length content)) - start"
  using assms by simp

lemma readinto_count:
  assumes h: "handle_exception (AzureHttpError 416) = AzureHttpError 416"
    and p: "0 \<le> io_seek self" and n: "b \<noteq> []"
  shows "\<exists>b'. readinto (read_range handle_exception (get_blob_to_stream content)) b self =
           (Inr (max 0 (min (io_seek self + int (length b)) (int (length content)) - io_seek self), b'),
            self\<lparr>io_seek := io_seek self
               + max 0 (min (io_seek self + int (length b)) (int (length content)) - io_seek self)\<rparr>)"
proof (cases "int (length content) \<le> io_seek self")
  case True
  then show ?thesis
    using read_range_at_end [of handle_exception content "io_seek self", OF h True] by (simp add: readinto_def)
next
  case False
  then have lt: "io_seek self < int (length content)" by simp
  have lt2: "io_seek self < io_seek self + int (length b)" using n by simp
  show ?thesis
    using read_range_inside [OF p lt lt2, of handle_exception] length_read_inside [OF p lt lt2] lt
    by (simp add: readinto_def min_def max_def)
qed


lemma readinto_calls_step:
  assumes h: "handle_exception (AzureHttpError 416) = AzureHttpError 416"
    and p: "0 \<le> io_seek self" and n: "b \<noteq> []" and sk: "io_seekable self"
  shows "readinto_calls (read_range handle_exception (get_blob_to_stream content)) (b # bs) self =
     (let count = max 0 (min (io_seek self + int (length b)) (int (length content)) - io_seek self)
      in (count, io_seek self + count)
           # readinto_calls (read_range handle_exception (get_blob_to_stream content)) bs
               (self\<lparr>io_seek := io_seek self + count\<rparr>))"
proof -
  obtain b' where "readinto (read_range handle_exception (get_blob_to_stream content)) b self =
           (Inr (max 0 (min (io_seek self + int (length b)) (int (length content)) - io_seek self), b'),
            self\<lparr>io_seek := io_seek self
               + max 0 (min (io_seek self + int (length b)) (int (length content)) - io_seek self)\<rparr>)"
    using readinto_count [of handle_exception self b content] h p n by blast
  then show ?thesis using sk by (simp add: tell_def Let_def)
qed

lemma sample_reads:
  assumes h: "handle_exception (AzureHttpError 416) = AzureHttpError 416"
    and len: "length content = 100"
    and self: "io_seek self = 0" "io_seekable self"
    and bs: "length b1 = 40" "length b2 = 40" "length b3 = 40" "length b4 = 40"
  shows "readinto_calls (read_range handle_exception (get_blob_to_stream content))
           [b1, b2, b3, b4] self = [(40, 40), (40, 80), (20, 100), (0, 100)]"
proof -
  let ?read = "read_range handle_exception (get_blob_to_stream content)"
  have ne: "b1 \<noteq> []" "b2 \<noteq> []" "b3 \<noteq> []" "b4 \<noteq> []" using bs by auto
  have 1: "readinto_calls ?read [b1, b2, b3, b4] self =
      (40, 40) # readinto_calls ?read [b2, b3, b4] (self\<lparr>io_seek := 40\<rparr>)"
    using readinto_calls_step [of handle_exception self b1 content "[b2, b3, b4]"]
      h ne(1) self len bs(1)
    by (simp add: Let_def)
  have 2: "readinto_calls ?read [b2, b3, b4] (self\<lparr>io_seek := 40\<rparr>) =
      (40, 80) # readinto_calls ?read [b3, b4] (self\<lparr>io_seek := 80\<rparr>)"
    using readinto_calls_step [of handle_exception "self\<lparr>io_seek := 40\<rparr>" b2 content "[b3, b4]"]
      h ne(2) self(2) len bs(2)
    by (simp add: Let_def)
  have 3: "readinto_calls ?read [b3, b4] (self\<lparr>io_seek := 80\<rparr>) =
      (20, 100) # readinto_calls ?read [b4] (self\<lparr>io_seek := 100\<rparr>)"
    using readinto_calls_step [of handle_exception "self\<lparr>io_seek := 80\<rparr>" b3 content "[b4]"]
      h ne(3) self(2) len bs(3)
    by (simp add: Let_def)
  have 4: "readinto_calls ?read [b4] (self\<lparr>io_seek := 100\<rparr>) = [(0, 100)]"
    using readinto_calls_step [of handle_exception "self\<lparr>io_seek := 100\<rparr>" b4 content "[]"]
      h ne(4) self(2) len bs(4)
    by (simp add: Let_def)
  show ?thesis by (simp only: 1 2 3 4)
qed

text \<open>
  C7. Provided the exception handling around the client call lets the status 416 through,
  for every object and every range read through \<open>_read_range\<close>: a range that starts at
  or past the end of the object returns zero bytes and no error; a range that starts inside
  the object and ends past it returns the bytes up to the end of the object, fewer than
  requested. In the sample, four \<open>readinto\<close> calls with 40-byte buffers on a 100-byte
  object return the counts 40, 40, 20, 0, and \<open>tell()\<close> gives 40, 80, 100, 100.
\<close>

theorem C7_read_past_end:
  assumes "handle_exception (AzureHttpError 416) = AzureHttpError 416"
  shows "(int (length content) \<le> start \<longrightarrow>
            read_range handle_exception (get_blob_to_stream content) start end' = Inr [])
    \<and> (0 \<le> start \<and> start < int (length content) \<and> int (length content) < end' \<longrightarrow>
         (\<exists>data. read_range handle_exception (get_blob_to_stream content) start end' = Inr data
            \<and> data = drop (nat start) content
            \<and> int (length data) = int (length content) - start
            \<and> int (length data) < end' - start))
    \<and> (length content = 100 \<and> io_seek self = 0 \<and> io_seekable self
          \<and> length b1 = 40 \<and> length b2 = 40 \<and> length b3 = 40 \<and> length b4 = 40 \<longrightarrow>
         readinto_calls (read_range handle_exception (get_blob_to_stream content))
           [b1, b2, b3, b4] self = [(40, 40), (40, 80), (20, 100), (0, 100)])"
proof (intro conjI impI)
  assume "int (length content) \<le> start"
  with assms show "read_range handle_exception (get_blob_to_stream content) start end' = Inr []"
    using read_range_at_end [of handle_exception content start end'] by simp
next
  assume a: "0 \<le> start \<and> start < int (length content) \<and> int (length content) < end'"
  then have "read_range handle_exception (get_blob_to_stream content) start end' =
      Inr (take (nat (min end' (int (length content)) - start)) (drop (nat start) content))"
    using read_range_inside [of start content end' handle_exception] by simp
  with a show "\<exists>data. read_range handle_exception (get_blob_to_stream content) start end' = Inr data
            \<and> data = drop (nat start) content
            \<and> int (length data) = int (length content) - start
            \<and> int (length data) < end' - start"
    by (auto simp: min_def)
next
  assume "length content = 100 \<and> io_seek self = 0 \<and> io_seekable self
          \<and> length b1 = 40 \<and> length b2 = 40 \<and> length b3 = 40 \<and> length b4 = 40"
  with assms show "readinto_calls (read_range handle_exception (get_blob_to_stream content))
           [b1, b2, b3, b4] self = [(40, 40), (40, 80), (20, 100), (0, 100)]"
    using sample_reads [of handle_exception content self b1 b2 b3 b4] by simp
qed


theorem C7_read_past_end_witness:
  "handle_azure_exception (AzureHttpError 416) = AzureHttpError 416
   \<and> read_range handle_azure_exception (get_blob_to_stream (replicate 100 7)) 100 140 = Inr []
   \<and> read_range handle_azure_exception (get_blob_to_stream (replicate 100 7)) 80 120
        = Inr (replicate 20 7)
   \<and> readinto_calls (read_range handle_azure_exception (get_blob_to_stream (replicate 100 7)))
        [replicate 40 0, replicate 40 0, replicate 40 0, replicate 40 0]
        \<lparr> io_name = ''f'', io_mode = ''r'', io_cache = (Map.empty :: string \<rightharpoonup> unit),
          io_seek = 0, io_writable = False, io_readable = True, io_seekable = True \<rparr>
        = [(40, 40), (40, 80), (20, 100), (0, 100)]"
proof -
  have h: "handle_azure_exception (AzureHttpError 416) = AzureHttpError 416"
    by (simp add: handle_azure_exception_def)
  show ?thesis
    using h
      C7_read_past_end [of handle_azure_exception "replicate 100 7" 100 140
        "\<lparr> io_name = ''f'', io_mode = ''r'', io_cache = (Map.empty :: string \<rightharpoonup> unit),
          io_seek = 0, io_writable = False, io_readable = True, io_seekable = True \<rparr>"
        "replicate 40 0" "replicate 40 0" "replicate 40 0" "replicate 40 0"]
      C7_read_past_end [of handle_azure_exception "replicate 100 7" 80 120
        "\<lparr> io_name = ''f'', io_mode = ''r'', io_cache = (Map.empty :: string \<rightharpoonup> unit),
          io_seek = 0, io_writable = False, io_readable = True, io_seekable = True \<rparr>"
        "replicate 40 0" "replicate 40 0" "replicate 40 0" "replicate 40 0"]
    by simp
qed


section \<open>Registry: lemmas\<close>

lemma contains_iff: "contains sep s \<longleftrightarrow> (\<exists>a b. s = a @ sep @ b)"
proof (induction s)
  case Nil
  then show ?case by auto
next
  case (Cons c cs)
  show ?case
  proof
    assume "contains sep (c # cs)"
    then consider "prefix sep (c # cs)" | "contains sep cs" by auto
    then show "\<exists>a b. c # cs = a @ sep @ b"
    proof cases
      case 1
      then obtain b where "c # cs = [] @ sep @ b" by (auto simp: prefix_def)
      then show ?thesis by blast
    next
      case 2
      then obtain a b where "cs = a @ sep @ b" using Cons.IH by blast
      then have "c # cs = (c # a) @ sep @ b" by simp
      then show ?thesis by blast
    qed
  next
    assume "\<exists>a b. c # cs = a @ sep @ b"
    then obtain a b where ab: "c # cs = a @ sep @ b" by blast
    show "contains sep (c # cs)"
    proof (cases a)
      case Nil
      then have "prefix sep (c # cs)" using ab by (simp add: prefix_def)
      then show ?thesis by simp
    next
      case (Cons a0 as)
      then have "cs = as @ sep @ b" using ab by simp
      then have "contains sep cs" using Cons.IH by blast
      then show ?thesis by simp
    qed
  qed
qed

lemma split_first_scheme:
  "CHR '':'' \<notin> set scheme \<Longrightarrow> split_first ''://'' (scheme @ ''://'' @ rest) = scheme"
  by (induction scheme) auto

lemma contains_scheme: "contains ''://'' (scheme @ ''://'' @ rest)"
  unfolding contains_iff by blast

lemma map_of_dict_update:
  "distinct (map fst other) \<Longrightarrow> map_of (dict_update d other) = map_of d ++ map_of other"
proof (induction other arbitrary: d)
  case Nil
  then show ?case by (simp add: dict_update_def)
next
  case (Cons p other)
  obtain k v where p: "p = (k, v)" by (cases p)
  have k: "k \<notin> fst ` set other" using Cons.prems p by auto
  have "map_of (dict_update d (p # other)) = map_of (dict_update (AList.update k v d) other)"
    by (simp add: dict_update_def p)
  also have "\<dots> = map_of (AList.update k v d) ++ map_of other"
    using Cons by simp
  also have "\<dots> = map_of d ++ map_of (p # other)"
  proof -
    have none: "map_of other k = None" using k by (simp add: map_of_eq_None_iff)
    show ?thesis
      using none by (auto simp: p update_conv' map_add_def fun_eq_iff split: option.splits)
  qed
  finally show ?case .
qed

lemma merged_parameters:
  assumes "distinct (map fst stored)"
  shows "map_of (dict_update parameters
           (filter (\<lambda>(key, value). key \<notin> set (map fst parameters)) stored)) key =
         (case map_of parameters key of Some v \<Rightarrow> Some v | None \<Rightarrow> map_of stored key)"
proof -
  let ?f = "filter (\<lambda>(key, value). key \<notin> set (map fst parameters)) stored"
  have d: "distinct (map fst ?f)" using assms by (simp add: distinct_map_filter)
  have "?f = AList.restrict (- set (map fst parameters)) stored"
    by (simp add: AList.restrict_eq)
  then have f: "map_of ?f key = (if key \<in> set (map fst parameters) then None else map_of stored key)"
    by (simp add: restr_conv' restrict_map_def)
  have add: "map_of (dict_update parameters ?f) key =
      (case map_of ?f key of None \<Rightarrow> map_of parameters key | Some v \<Rightarrow> Some v)"
    unfolding map_of_dict_update [OF d] by (simp add: map_add_def)
  show ?thesis
  proof (cases "map_of parameters key")
    case None
    then have "key \<notin> set (map fst parameters)" by (simp add: map_of_eq_None_iff)
    then have "map_of ?f key = map_of stored key" using f by simp
    then show ?thesis unfolding add None by (simp split: option.splits)
  next
    case (Some v)
    then have "key \<in> set (map fst parameters)"
      by (metis map_of_eq_None_iff option.distinct(1) set_map)
    then have "map_of ?f key = None" using f by simp
    then show ?thesis unfolding add Some by simp
  qed
qed

lemma system_parameters_None:
  "system_parameters [(''unsecure'', PNone), (''storage_parameters'', PNone)] = []"
  by (simp add: system_parameters_def)

lemma get_instance_no_parameters:
  assumes "find_root (re_match env) name (MOUNTED st) = Some (root, info)"
    and "system_parameters [(''unsecure'', unsecure), (''storage_parameters'', storage_parameters)] = []"
  shows "get_instance env name ''system'' storage storage_parameters unsecure args kwargs st =
           (Inr (System (info_system_cached info)), st)"
  using assms by (simp add: get_instance_def resolve_def Let_def)

lemma get_instance_equal_parameters:
  assumes "find_root (re_match env) name (MOUNTED st) = Some (root, info)"
    and "dict_eq pyval_eq
           (system_parameters [(''unsecure'', unsecure), (''storage_parameters'', storage_parameters)])
           (info_system_parameters info)"
  shows "get_instance env name ''system'' storage storage_parameters unsecure args kwargs st =
           (Inr (System (info_system_cached info)), st)"
  using assms by (simp add: get_instance_def resolve_def Let_def)

lemma get_instance_different_parameters:
  assumes "find_root (re_match env) name (MOUNTED st) = Some (root, info)"
    and "parameters = system_parameters [(''unsecure'', unsecure), (''storage_parameters'', storage_parameters)]"
    and "parameters \<noteq> []"
    and "\<not> dict_eq pyval_eq parameters (info_system_parameters info)"
    and "map_of (info_classes info) ''system'' = Some system"
    and "merged = dict_update parameters
           (filter (\<lambda>(key, value). key \<notin> set (map fst parameters)) (info_system_parameters info))"
  shows "get_instance env name ''system'' storage storage_parameters unsecure args kwargs st =
           (case system_init env system (Some (info_roots info)) merged of
              Inl e \<Rightarrow> (Inl e, st)
            | Inr roots \<Rightarrow>
                (Inr (System (length (systems st))),
                 st\<lparr>systems := systems st @
                    [\<lparr> sys_class = system, sys_roots_arg = Some (info_roots info),
                       sys_parameters = merged, sys_roots = roots \<rparr>]\<rparr>))"
  using assms by (simp add: get_instance_def resolve_def Let_def split: sum.splits)

lemma systems_store_parameters [simp]: "systems (store_parameters i f st) = systems st"
  by (simp add: store_parameters_def)

lemma systems_write_back [simp]: "systems (write_back binding info given assigned st) = systems st"
  by (cases binding) simp_all

lemma prefix_le_lex: "prefix (xs :: string) ys \<Longrightarrow> xs \<le> ys"
proof (induction xs arbitrary: ys)
  case Nil
  then show ?case by simp
next
  case (Cons x xs)
  then obtain ys' where "ys = x # ys'" "prefix xs ys'" by (cases ys) auto
  then show ?case using Cons.IH by simp
qed

lemma prefixes_lex_prefix:
  assumes "prefix (a :: string) n" and "prefix b n" and "a \<le> b"
  shows "prefix a b"
proof -
  from assms(1,2) consider "prefix a b" | "prefix b a"
    using prefix_same_cases by blast
  then show ?thesis
  proof cases
    case 1
    then show ?thesis .
  next
    case 2
    then have "b \<le> a" by (rule prefix_le_lex)
    then have "a = b" using assms(3) by simp
    then show ?thesis by simp
  qed
qed

text \<open>
  The rebuilt registry holds the items it held: the keys are those of the dict, so the
  lookup \<open>MOUNTED[key]\<close> finds each of them.
\<close>

lemma reorder_entries:
  assumes "distinct (map fst mounted)"
  shows "set (reorder mounted) = set mounted"
proof -
  have eq: "(key, the (map_of mounted key)) \<in> set mounted" if "key \<in> fst ` set mounted" for key
  proof -
    from that obtain info where "(key, info) \<in> set mounted" by auto
    then have "map_of mounted key = Some info" using assms by simp
    then show ?thesis using \<open>(key, info) \<in> set mounted\<close> by simp
  qed
  have "set (reorder mounted) = (\<lambda>key. (key, the (map_of mounted key))) ` fst ` set mounted"
    by (simp add: reorder_def)
  also have "\<dots> = set mounted"
  proof
    show "(\<lambda>key. (key, the (map_of mounted key))) ` fst ` set mounted \<subseteq> set mounted"
      using eq by auto
  next
    show "set mounted \<subseteq> (\<lambda>key. (key, the (map_of mounted key))) ` fst ` set mounted"
    proof
      fix entry assume e: "entry \<in> set mounted"
      obtain key info where entry: "entry = (key, info)" by (cases entry)
      then have "map_of mounted key = Some info" using assms e by simp
      then have "entry = (key, the (map_of mounted key))" using entry by simp
      moreover have "key \<in> fst ` set mounted" using e entry by force
      ultimately show "entry \<in> (\<lambda>key. (key, the (map_of mounted key))) ` fst ` set mounted"
        by blast
    qed
  qed
  finally show ?thesis .
qed

lemma reorder_keys: "map fst (reorder mounted) = rev (sort_key compare_root (map fst mounted))"
  by (simp add: reorder_def comp_def)

lemma descending_reorder: "descending (reorder mounted)"
proof -
  have "map (\<lambda>(root, info). compare_root root) (reorder mounted)
      = map compare_root (map fst (reorder mounted))"
    by (simp add: comp_def case_prod_unfold)
  also have "\<dots> = rev (map compare_root (sort_key compare_root (map fst mounted)))"
    by (simp add: reorder_keys rev_map)
  finally show ?thesis by (simp add: descending_def)
qed

lemma mount_MOUNTED:
  "MOUNTED (snd (mount env storage name storage_parameters unsecure extra_root st)) = MOUNTED st
   \<or> (\<exists>mounted. MOUNTED (snd (mount env storage name storage_parameters unsecure extra_root st))
         = reorder mounted)"
  by (auto simp: mount_def Let_def add_roots_def split: sum.splits option.splits)

lemma descending_mount:
  "descending (MOUNTED st) \<Longrightarrow>
   descending (MOUNTED (snd (mount env storage name storage_parameters unsecure extra_root st)))"
  using mount_MOUNTED [of env storage name storage_parameters unsecure extra_root st]
  by (auto simp: descending_reorder)

lemma descending_mounts:
  "descending (MOUNTED st) \<Longrightarrow> descending (MOUNTED (mounts env calls st))"
  by (induction calls arbitrary: st) (simp_all add: descending_mount)

lemma descending_initial: "descending (MOUNTED (mounts env calls initial_state))"
  by (rule descending_mounts) (simp add: initial_state_def descending_def)

lemma descending_Cons:
  "descending ((root, info) # mounted) \<longleftrightarrow>
     descending mounted \<and> (\<forall>(root', info') \<in> set mounted. compare_root root' \<le> compare_root root)"
  by (auto simp: descending_def sorted_append)

lemma find_root_first:
  assumes "descending mounted" and "(Str s, i) \<in> set mounted" and "prefix s name"
  shows "\<exists>root' i'. find_root matches name mounted = Some (root', i')
           \<and> (root', i') \<in> set mounted
           \<and> root_matches matches root' name
           \<and> (\<forall>s'. root' = Str s' \<longrightarrow> prefix s s')"
  using assms
proof (induction mounted)
  case Nil
  then show ?case by simp
next
  case (Cons entry mounted)
  obtain root info where entry: "entry = (root, info)" by (cases entry)
  have desc: "descending mounted"
    and above: "\<forall>(root', info') \<in> set mounted. compare_root root' \<le> compare_root root"
    using Cons.prems(1) unfolding entry descending_Cons by auto
  show ?case
  proof (cases "root_matches matches root name")
    case True
    have "\<forall>s'. root = Str s' \<longrightarrow> prefix s s'"
    proof (intro allI impI)
      fix s' assume root: "root = Str s'"
      then have ps': "prefix s' name" using True by (simp add: root_matches_def)
      have "s \<le> s'"
      proof (cases "(Str s, i) = entry")
        case True
        then show ?thesis using entry root by simp
      next
        case False
        then have "(Str s, i) \<in> set mounted" using Cons.prems(2) by simp
        then show ?thesis using above root by auto
      qed
      then show "prefix s s'" using Cons.prems(3) ps' by (rule prefixes_lex_prefix[rotated 2])
    qed
    then show ?thesis using True by (simp add: entry)
  next
    case False
    then have "(Str s, i) \<noteq> entry"
      using Cons.prems(3) by (auto simp: entry root_matches_def)
    then have "(Str s, i) \<in> set mounted" using Cons.prems(2) by simp
    then obtain root' i' where "find_root matches name mounted = Some (root', i')"
      "(root', i') \<in> set mounted" "root_matches matches root' name"
      "\<forall>s'. root' = Str s' \<longrightarrow> prefix s s'"
      using Cons.IH [OF desc _ Cons.prems(3)] by blast
    then show ?thesis using False by (simp add: entry)
  qed
qed

lemmas sample_eval =
  mount_def sample_env_def sample_mount_def sample_info_def infer_storage_def
  system_parameters_def base_classes_def add_roots_def reorder_def initial_state_def
  root_matches_def Let_def

lemma mounted_literal:
  "MOUNTED (mounts sample_env [sample_mount ''dummy'', sample_mount ''sub''] initial_state) =
     [(Str ''dummy://sub/'', sample_info 1 ''SubSystem'' (Str ''dummy://sub/'')),
      (Str ''dummy://'',
         \<lparr> info_id = 0, info_system_parameters = [],
           info_classes = [(''buffered'', Cls ''DummyBufferedIO''), (''raw'', Cls ''DummyRawIO''),
                           (''system'', Cls ''DummySystem'')],
           info_system_cached = 0, info_roots = [Str ''dummy://''] \<rparr>)]"
  by (simp add: sample_eval)

lemma mounted_pattern:
  "MOUNTED (mounts sample_env [sample_mount ''pattern'', sample_mount ''sub''] initial_state) =
     [(Str ''dummy://sub/'', sample_info 1 ''SubSystem'' (Str ''dummy://sub/'')),
      (Pattern ''[d]ummy://sub/'', sample_info 0 ''PatternSystem'' (Pattern ''[d]ummy://sub/''))]"
  by (simp add: sample_eval)

lemma sample_state_mounted:
  "mount sample_env None ''dummy://x'' PNone (PBool True) None initial_state =
     (Inr (dummy_info [(''unsecure'', PBool True)]), sample_state)"
  by (simp add: sample_eval sample_state_def dummy_info_def lower_def lower_char_def
        ascii_uppercase_def ascii_lowercase_def)

lemma sample_found:
  "find_root (re_match sample_env) ''dummy://a'' (MOUNTED sample_state) =
     Some (Str ''dummy://'', dummy_info [(''unsecure'', PBool True)])"
  by (simp add: sample_state_def root_matches_def)

section \<open>Registry: theorems\<close>

text \<open>
  C5. When \<open>mount\<close> is called without a storage name, the storage is taken from the
  name: for a name that is a scheme without colon, then \<open>://\<close>, then the rest, the call
  does what the call with the lowercased scheme as storage does, \<open>https\<close> standing for
  \<open>http\<close>. When no storage is given and the name contains no \<open>://\<close>, the call
  raises the \<open>ValueError\<close> of a storage that cannot be inferred (the spec's ConfigError)
  and leaves the state, the registry with it, as it was.
\<close>

theorem C5_infer_storage:
  "(CHR '':'' \<notin> set scheme \<longrightarrow>
      mount env None (scheme @ ''://'' @ rest) storage_parameters unsecure extra_root st =
      mount env (Some (if lower scheme = ''https'' then ''http'' else lower scheme))
        (scheme @ ''://'' @ rest) storage_parameters unsecure extra_root st)
   \<and> ((\<forall>a b. name \<noteq> a @ ''://'' @ b) \<longrightarrow>
      mount env None name storage_parameters unsecure extra_root st =
        (Inl (ValueError ''No storage specified and unable to infer it from file name.''), st))"
proof (intro conjI impI)
  assume colon: "CHR '':'' \<notin> set scheme"
  define url where "url = scheme @ ''://'' @ rest"
  have sf: "split_first ''://'' url = scheme"
    unfolding url_def using colon by (rule split_first_scheme)
  have c: "contains ''://'' url"
    unfolding url_def by (rule contains_scheme)
  have "infer_storage None url = Inr (if lower scheme = ''https'' then ''http'' else lower scheme)"
    by (simp add: infer_storage_def sf c Let_def)
  then have "mount env None url storage_parameters unsecure extra_root st =
      mount env (Some (if lower scheme = ''https'' then ''http'' else lower scheme))
        url storage_parameters unsecure extra_root st"
    by (simp add: mount_def infer_storage_def)
  then show "mount env None (scheme @ ''://'' @ rest) storage_parameters unsecure extra_root st =
      mount env (Some (if lower scheme = ''https'' then ''http'' else lower scheme))
        (scheme @ ''://'' @ rest) storage_parameters unsecure extra_root st"
    unfolding url_def .
next
  assume "\<forall>a b. name \<noteq> a @ ''://'' @ b"
  then have "\<not> contains ''://'' name" unfolding contains_iff by blast
  then show "mount env None name storage_parameters unsecure extra_root st =
        (Inl (ValueError ''No storage specified and unable to infer it from file name.''), st)"
    by (simp add: mount_def infer_storage_def)
qed

theorem C5_infer_storage_witness:
  "mount sample_env None ''DUMMY://x'' PNone (PBool True) None initial_state =
     (Inr (dummy_info [(''unsecure'', PBool True)]), sample_state)
   \<and> mount sample_env None ''HTTPS://host/x'' PNone PNone None initial_state =
       (Inl (ImportError ''http''), initial_state)
   \<and> mount sample_env None ''dummy/x'' PNone PNone None initial_state =
       (Inl (ValueError ''No storage specified and unable to infer it from file name.''),
        initial_state)"
proof -
  have lower: "lower ''DUMMY'' = ''dummy''" "lower ''HTTPS'' = ''https''"
    by (simp_all add: lower_def lower_char_def ascii_uppercase_def ascii_lowercase_def)
  have explicit: "mount sample_env (Some ''dummy'') ''DUMMY://x'' PNone (PBool True) None initial_state =
     (Inr (dummy_info [(''unsecure'', PBool True)]), sample_state)"
    "mount sample_env (Some ''http'') ''HTTPS://host/x'' PNone PNone None initial_state =
       (Inl (ImportError ''http''), initial_state)"
    by (simp_all add: sample_eval sample_state_def dummy_info_def)
  have no_scheme: "\<forall>a b. ''dummy/x'' \<noteq> a @ ''://'' @ b"
    using contains_iff [of "''://''" "''dummy/x''"] by simp
  show ?thesis
    using C5_infer_storage [of "''DUMMY''" sample_env "''x''" PNone "PBool True" None initial_state
            "''dummy/x''"]
          C5_infer_storage [of "''HTTPS''" sample_env "''host/x''" PNone PNone None initial_state
            "''dummy/x''"]
          no_scheme explicit
    by (simp add: lower)
qed

text \<open>
  C2. For a name that a mounted root serves: with no parameters, or with parameters equal
  to the stored ones, \<open>get_instance\<close> returns the cached system instance itself and
  changes nothing; with no parameters the stored parameters are the ones used. With
  parameters that differ from the stored ones, it constructs a new system instance, at an
  address no instance had, from the merged parameters, in which every key the caller gave
  has the caller's value and every other key the stored value; the registry and the
  instances that existed, the cached one among them, stay as they were.
\<close>

theorem C2_cached_or_fresh_instance:
  assumes found: "find_root (re_match env) name (MOUNTED st) = Some (root, info)"
    and parameters: "parameters =
       system_parameters [(''unsecure'', unsecure), (''storage_parameters'', storage_parameters)]"
    and stored: "distinct (map fst (info_system_parameters info))"
  shows "(parameters = [] \<or> dict_eq pyval_eq parameters (info_system_parameters info) \<longrightarrow>
            get_instance env name ''system'' storage storage_parameters unsecure args kwargs st =
              (Inr (System (info_system_cached info)), st))
     \<and> (parameters = [] \<longrightarrow>
            (\<exists>binding. resolve env name storage parameters st =
               (Inr (info, True, info_system_parameters info, binding), st)))
     \<and> (parameters \<noteq> [] \<and> \<not> dict_eq pyval_eq parameters (info_system_parameters info)
          \<and> map_of (info_classes info) ''system'' = Some system \<longrightarrow>
            (\<exists>merged.
               (\<forall>key. map_of merged key =
                  (case map_of parameters key of
                     Some value \<Rightarrow> Some value
                   | None \<Rightarrow> map_of (info_system_parameters info) key))
               \<and> get_instance env name ''system'' storage storage_parameters unsecure args kwargs st =
                   (case system_init env system (Some (info_roots info)) merged of
                      Inl e \<Rightarrow> (Inl e, st)
                    | Inr roots \<Rightarrow>
                        (Inr (System (length (systems st))),
                         st\<lparr>systems := systems st @
                            [\<lparr> sys_class = system, sys_roots_arg = Some (info_roots info),
                               sys_parameters = merged, sys_roots = roots \<rparr>]\<rparr>))))"
proof (intro conjI impI)
  assume "parameters = [] \<or> dict_eq pyval_eq parameters (info_system_parameters info)"
  then show "get_instance env name ''system'' storage storage_parameters unsecure args kwargs st =
              (Inr (System (info_system_cached info)), st)"
    using get_instance_no_parameters [OF found] get_instance_equal_parameters [OF found]
    unfolding parameters by blast
next
  assume "parameters = []"
  then show "\<exists>binding. resolve env name storage parameters st =
               (Inr (info, True, info_system_parameters info, binding), st)"
    using found by (simp add: resolve_def Let_def)
next
  assume a: "parameters \<noteq> [] \<and> \<not> dict_eq pyval_eq parameters (info_system_parameters info)
          \<and> map_of (info_classes info) ''system'' = Some system"
  let ?merged = "dict_update parameters
           (filter (\<lambda>(key, value). key \<notin> set (map fst parameters)) (info_system_parameters info))"
  have m: "\<forall>key. map_of ?merged key =
      (case map_of parameters key of
         Some value \<Rightarrow> Some value
       | None \<Rightarrow> map_of (info_system_parameters info) key)"
    using merged_parameters [OF stored] by blast
  have g: "get_instance env name ''system'' storage storage_parameters unsecure args kwargs st =
      (case system_init env system (Some (info_roots info)) ?merged of
         Inl e \<Rightarrow> (Inl e, st)
       | Inr roots \<Rightarrow>
           (Inr (System (length (systems st))),
            st\<lparr>systems := systems st @
               [\<lparr> sys_class = system, sys_roots_arg = Some (info_roots info),
                  sys_parameters = ?merged, sys_roots = roots \<rparr>]\<rparr>))"
    using a by (intro get_instance_different_parameters [OF found parameters]) auto
  show "\<exists>merged.
       (\<forall>key. map_of merged key =
          (case map_of parameters key of
             Some value \<Rightarrow> Some value
           | None \<Rightarrow> map_of (info_system_parameters info) key))
       \<and> get_instance env name ''system'' storage storage_parameters unsecure args kwargs st =
           (case system_init env system (Some (info_roots info)) merged of
              Inl e \<Rightarrow> (Inl e, st)
            | Inr roots \<Rightarrow>
                (Inr (System (length (systems st))),
                 st\<lparr>systems := systems st @
                    [\<lparr> sys_class = system, sys_roots_arg = Some (info_roots info),
                       sys_parameters = merged, sys_roots = roots \<rparr>]\<rparr>))"
    using m g by blast
qed

theorem C2_cached_or_fresh_instance_witness:
  "get_instance sample_env ''dummy://a'' ''system'' None PNone PNone [] [] sample_state =
     (Inr (System 0), sample_state)
   \<and> get_instance sample_env ''dummy://a'' ''system'' None PNone (PBool True) [] [] sample_state =
     (Inr (System 0), sample_state)
   \<and> (\<exists>merged.
         map_of merged ''unsecure'' = Some (PBool True)
         \<and> map_of merged ''storage_parameters'' = Some (PDict [(''key'', AStr ''secret'')])
         \<and> get_instance sample_env ''dummy://a'' ''system'' None
              (PDict [(''key'', AStr ''secret'')]) PNone [] [] sample_state =
             (Inr (System 1),
              sample_state\<lparr>systems := systems sample_state @
                [\<lparr> sys_class = Cls ''DummySystem'', sys_roots_arg = Some [Str ''dummy://''],
                   sys_parameters = merged, sys_roots = [Str ''dummy://''] \<rparr>]\<rparr>))"
proof -
  have stored: "distinct (map fst (info_system_parameters (dummy_info [(''unsecure'', PBool True)])))"
    by (simp add: dummy_info_def)
  have none: "get_instance sample_env ''dummy://a'' ''system'' None PNone PNone [] [] sample_state =
     (Inr (System 0), sample_state)"
    using C2_cached_or_fresh_instance [where unsecure = PNone and storage_parameters = PNone
        and storage = None and args = "[]" and kwargs = "[]", OF sample_found refl stored]
    by (simp add: system_parameters_def dummy_info_def)
  have equal: "get_instance sample_env ''dummy://a'' ''system'' None PNone (PBool True) [] [] sample_state =
     (Inr (System 0), sample_state)"
    using C2_cached_or_fresh_instance [where unsecure = "PBool True" and storage_parameters = PNone
        and storage = None and args = "[]" and kwargs = "[]", OF sample_found refl stored]
    by (simp add: system_parameters_def dummy_info_def dict_eq_def)
  have pre: "system_parameters [(''unsecure'', PNone),
                 (''storage_parameters'', PDict [(''key'', AStr ''secret'')])] \<noteq> []
      \<and> \<not> dict_eq pyval_eq
            (system_parameters [(''unsecure'', PNone),
               (''storage_parameters'', PDict [(''key'', AStr ''secret'')])])
            (info_system_parameters (dummy_info [(''unsecure'', PBool True)]))
      \<and> map_of (info_classes (dummy_info [(''unsecure'', PBool True)])) ''system''
          = Some (Cls ''DummySystem'')"
    by (simp add: system_parameters_def dummy_info_def dict_eq_def)
  obtain merged where m: "\<forall>key. map_of merged key =
        (case map_of (system_parameters [(''unsecure'', PNone),
                 (''storage_parameters'', PDict [(''key'', AStr ''secret'')])]) key of
           Some value \<Rightarrow> Some value
         | None \<Rightarrow> map_of (info_system_parameters (dummy_info [(''unsecure'', PBool True)])) key)"
    and g: "get_instance sample_env ''dummy://a'' ''system'' None
              (PDict [(''key'', AStr ''secret'')]) PNone [] [] sample_state =
        (case system_init sample_env (Cls ''DummySystem'')
                (Some (info_roots (dummy_info [(''unsecure'', PBool True)]))) merged of
           Inl e \<Rightarrow> (Inl e, sample_state)
         | Inr roots \<Rightarrow>
             (Inr (System (length (systems sample_state))),
              sample_state\<lparr>systems := systems sample_state @
                [\<lparr> sys_class = Cls ''DummySystem'',
                   sys_roots_arg = Some (info_roots (dummy_info [(''unsecure'', PBool True)])),
                   sys_parameters = merged, sys_roots = roots \<rparr>]\<rparr>))"
    using C2_cached_or_fresh_instance [where unsecure = PNone
        and storage_parameters = "PDict [(''key'', AStr ''secret'')]"
        and storage = None and args = "[]" and kwargs = "[]" and system = "Cls ''DummySystem''",
        OF sample_found refl stored] pre
    by blast
  have "map_of merged ''unsecure'' = Some (PBool True)"
    "map_of merged ''storage_parameters'' = Some (PDict [(''key'', AStr ''secret'')])"
    using m by (simp_all add: system_parameters_def dummy_info_def)
  moreover have "get_instance sample_env ''dummy://a'' ''system'' None
              (PDict [(''key'', AStr ''secret'')]) PNone [] [] sample_state =
             (Inr (System 1),
              sample_state\<lparr>systems := systems sample_state @
                [\<lparr> sys_class = Cls ''DummySystem'', sys_roots_arg = Some [Str ''dummy://''],
                   sys_parameters = merged, sys_roots = [Str ''dummy://''] \<rparr>]\<rparr>)"
    using g by (simp add: sample_env_def sample_state_def dummy_info_def)
  ultimately have "\<exists>merged.
         map_of merged ''unsecure'' = Some (PBool True)
         \<and> map_of merged ''storage_parameters'' = Some (PDict [(''key'', AStr ''secret'')])
         \<and> get_instance sample_env ''dummy://a'' ''system'' None
              (PDict [(''key'', AStr ''secret'')]) PNone [] [] sample_state =
             (Inr (System 1),
              sample_state\<lparr>systems := systems sample_state @
                [\<lparr> sys_class = Cls ''DummySystem'', sys_roots_arg = Some [Str ''dummy://''],
                   sys_parameters = merged, sys_roots = [Str ''dummy://''] \<rparr>]\<rparr>)"
    by blast
  then show ?thesis using none equal by blast
qed

text \<open>
  C10. An item whose value is \<open>None\<close> is dropped by \<open>_system_parameters\<close>, as if it
  had not been given, and no \<open>None\<close> is left among the system parameters. A
  \<open>get_instance\<close> call giving only \<open>None\<close> for a name that a mounted root serves
  returns the cached system instance and, for every class asked, constructs no system
  instance; a \<open>mount\<close> call giving only \<open>None\<close> stores empty system parameters.
\<close>

theorem C10_none_is_omitted:
  "system_parameters (kwargs @ (key, PNone) # kwargs') = system_parameters (kwargs @ kwargs')
   \<and> PNone \<notin> snd ` set (system_parameters kwargs)
   \<and> (find_root (re_match env) name (MOUNTED st) = Some (root, info) \<longrightarrow>
        get_instance env name ''system'' storage PNone PNone args ikwargs st =
          (Inr (System (info_system_cached info)), st)
        \<and> systems (snd (get_instance env name cls storage PNone PNone args ikwargs st)) = systems st)
   \<and> (mount env storage' name' PNone PNone extra_root mst = (Inr info', st') \<longrightarrow>
        info_system_parameters info' = [])"
proof (intro conjI impI)
  show "system_parameters (kwargs @ (key, PNone) # kwargs') = system_parameters (kwargs @ kwargs')"
    by (simp add: system_parameters_def)
  show "PNone \<notin> snd ` set (system_parameters kwargs)"
    by (auto simp: system_parameters_def)
next
  assume found: "find_root (re_match env) name (MOUNTED st) = Some (root, info)"
  show "get_instance env name ''system'' storage PNone PNone args ikwargs st =
          (Inr (System (info_system_cached info)), st)"
    using found system_parameters_None by (rule get_instance_no_parameters)
  have r: "\<exists>binding. resolve env name storage [] st =
      (Inr (info, True, info_system_parameters info, binding), st)"
    using found by (simp add: resolve_def Let_def)
  then obtain binding where "resolve env name storage [] st =
      (Inr (info, True, info_system_parameters info, binding), st)" by blast
  then show "systems (snd (get_instance env name cls storage PNone PNone args ikwargs st)) = systems st"
    by (simp add: get_instance_def system_parameters_None Let_def split: sum.splits option.splits)
next
  assume "mount env storage' name' PNone PNone extra_root mst = (Inr info', st')"
  then show "info_system_parameters info' = []"
    by (auto simp: mount_def system_parameters_None Let_def split: sum.splits option.splits)
qed

theorem C10_none_is_omitted_witness:
  "system_parameters [(''unsecure'', PNone), (''storage_parameters'', PDict [])] =
     system_parameters [(''storage_parameters'', PDict [])]
   \<and> get_instance sample_env ''dummy://a'' ''system'' None PNone PNone [] [] sample_state =
       (Inr (System 0), sample_state)
   \<and> systems (snd (get_instance sample_env ''dummy://a'' ''raw'' None PNone PNone [] [] sample_state))
       = systems sample_state
   \<and> info_system_parameters (sample_info 0 ''SubSystem'' (Str ''dummy://sub/'')) = []"
proof -
  have mounted: "mount sample_env (Some ''sub'') [] PNone PNone None initial_state =
      (Inr (sample_info 0 ''SubSystem'' (Str ''dummy://sub/'')),
       \<lparr> MOUNTED = [(Str ''dummy://sub/'', sample_info 0 ''SubSystem'' (Str ''dummy://sub/''))],
         systems = [\<lparr> sys_class = Cls ''SubSystem'', sys_roots_arg = None, sys_parameters = [],
                      sys_roots = [Str ''dummy://sub/''] \<rparr>],
         infos_created = 1 \<rparr>)"
    by (simp add: sample_eval)
  show ?thesis
    using C10_none_is_omitted [where kwargs = "[]" and key = "''unsecure''"
        and kwargs' = "[(''storage_parameters'', PDict [])]" and env = sample_env
        and name = "''dummy://a''" and st = sample_state and root = "Str ''dummy://''"
        and info = "dummy_info [(''unsecure'', PBool True)]" and storage = None and args = "[]"
        and ikwargs = "[]" and cls = "''raw''" and storage' = "Some ''sub''" and name' = "[]"
        and extra_root = None and mst = initial_state
        and info' = "sample_info 0 ''SubSystem'' (Str ''dummy://sub/'')"]
      sample_found mounted
    by (simp add: dummy_info_def)
qed

text \<open>
  C3, for literal roots. After any sequence of \<open>mount\<close> calls on the empty registry, the registry
  is in descending order of the comparison strings of its roots. For a name that a mounted
  literal root starts, the lookup selects a root, and when the selected root is a literal it
  has every mounted literal root that starts the name as a prefix, so it is at least as
  long: with \<open>dummy://\<close> and \<open>dummy://sub/\<close> mounted, a name starting with
  \<open>dummy://sub/\<close> does not select \<open>dummy://\<close>. When all mounted roots are literals,
  the selected root is the longest applicable one.
\<close>

theorem C3_longest_literal_root_first:
  assumes "(Str s, i) \<in> set (MOUNTED (mounts env calls initial_state))" and "prefix s name"
  shows "descending (MOUNTED (mounts env calls initial_state))
    \<and> (\<exists>root' i'.
          find_root (re_match env) name (MOUNTED (mounts env calls initial_state)) = Some (root', i')
          \<and> (\<forall>s'. root' = Str s' \<longrightarrow> prefix s s' \<and> length s \<le> length s')
          \<and> ((\<forall>(root, info) \<in> set (MOUNTED (mounts env calls initial_state)). \<exists>s'. root = Str s')
                \<longrightarrow> (\<exists>s'. root' = Str s' \<and> prefix s' name \<and> length s \<le> length s')))"
proof -
  let ?mounted = "MOUNTED (mounts env calls initial_state)"
  have desc: "descending ?mounted" by (rule descending_initial)
  obtain root' i' where found: "find_root (re_match env) name ?mounted = Some (root', i')"
    and member: "(root', i') \<in> set ?mounted"
    and applies: "root_matches (re_match env) root' name"
    and longer: "\<forall>s'. root' = Str s' \<longrightarrow> prefix s s'"
    using find_root_first [OF desc assms] by blast
  have len: "\<forall>s'. root' = Str s' \<longrightarrow> prefix s s' \<and> length s \<le> length s'"
    using longer by (auto dest: prefix_length_le)
  have "(\<forall>(root, info) \<in> set ?mounted. \<exists>s'. root = Str s')
      \<longrightarrow> (\<exists>s'. root' = Str s' \<and> prefix s' name \<and> length s \<le> length s')"
  proof
    assume "\<forall>(root, info) \<in> set ?mounted. \<exists>s'. root = Str s'"
    then obtain s' where "root' = Str s'" using member by auto
    then show "\<exists>s'. root' = Str s' \<and> prefix s' name \<and> length s \<le> length s'"
      using len applies by (auto simp: root_matches_def)
  qed
  then show ?thesis using desc found len by blast
qed

theorem C3_longest_literal_root_first_witness:
  "(Str ''dummy://'',
      \<lparr> info_id = 0, info_system_parameters = [],
        info_classes = [(''buffered'', Cls ''DummyBufferedIO''), (''raw'', Cls ''DummyRawIO''),
                        (''system'', Cls ''DummySystem'')],
        info_system_cached = 0, info_roots = [Str ''dummy://''] \<rparr>)
     \<in> set (MOUNTED (mounts sample_env [sample_mount ''dummy'', sample_mount ''sub''] initial_state))
   \<and> prefix ''dummy://'' ''dummy://sub/x''
   \<and> find_root (re_match sample_env) ''dummy://sub/x''
        (MOUNTED (mounts sample_env [sample_mount ''dummy'', sample_mount ''sub''] initial_state))
       = Some (Str ''dummy://sub/'', sample_info 1 ''SubSystem'' (Str ''dummy://sub/''))"
proof -
  have member: "(Str ''dummy://'',
      \<lparr> info_id = 0, info_system_parameters = [],
        info_classes = [(''buffered'', Cls ''DummyBufferedIO''), (''raw'', Cls ''DummyRawIO''),
                        (''system'', Cls ''DummySystem'')],
        info_system_cached = 0, info_roots = [Str ''dummy://''] \<rparr>)
     \<in> set (MOUNTED (mounts sample_env [sample_mount ''dummy'', sample_mount ''sub''] initial_state))"
    unfolding mounted_literal by simp
  have starts: "prefix ''dummy://'' ''dummy://sub/x''" by simp
  have "find_root (re_match sample_env) ''dummy://sub/x''
        (MOUNTED (mounts sample_env [sample_mount ''dummy'', sample_mount ''sub''] initial_state))
       = Some (Str ''dummy://sub/'', sample_info 1 ''SubSystem'' (Str ''dummy://sub/''))"
    using C3_longest_literal_root_first [OF member starts]
    unfolding mounted_literal by (simp add: root_matches_def)
  then show ?thesis using member starts by blast
qed

text \<open>
  C3 does not extend to pattern roots, which are ordered by their pattern text: after
  mounting \<open>dummy\<close> and \<open>pattern\<close>, the lookup of \<open>dummy://sub/x\<close> selects the root
  \<open>dummy://\<close>, although the pattern root \<open>[d]ummy://sub/\<close> applies to the name, is
  longer and serves fewer names.
\<close>

theorem C3_pattern_root_counterexample:
  "map_option fst (find_root (re_match sample_env) ''dummy://sub/x''
      (MOUNTED (mounts sample_env [sample_mount ''dummy'', sample_mount ''pattern''] initial_state)))
     = Some (Str ''dummy://'')
   \<and> Pattern ''[d]ummy://sub/''
       \<in> fst ` set (MOUNTED (mounts sample_env [sample_mount ''dummy'', sample_mount ''pattern'']
                               initial_state))
   \<and> root_matches (re_match sample_env) (Pattern ''[d]ummy://sub/'') ''dummy://sub/x''
   \<and> length (compare_root (Str ''dummy://'')) < length (compare_root (Pattern ''[d]ummy://sub/''))"
  by (simp add: sample_eval)

end
